theory Spec2Isabelle
  imports Complex_Main
begin

section \<open>The JavaScript number type\<close>

text \<open>
  The anomaly detectors of the route handler compute on JavaScript numbers, which are
  IEEE 754 binary64 values. A number is modelled by its exact value: \<open>Fin q\<close> is the
  finite double whose value is the rational \<open>q\<close> (so \<open>Fin 0\<close> is \<open>+0\<close>), \<open>NegZero\<close> is
  \<open>-0\<close>, and \<open>PosInf\<close>, \<open>NegInf\<close>, \<open>NaN\<close> are the three special values. Every arithmetic
  operation computes the exact rational result and rounds it with \<open>round64\<close>
  (round to nearest, ties to even, 53 bits of precision, exponents from -1074 to 971,
  overflow to an infinity), which is what the hardware does for \<open>+\<close>, \<open>-\<close>, \<open>*\<close>, \<open>/\<close>
  and \<open>Math.sqrt\<close>.
\<close>

datatype number = NaN | PosInf | NegInf | NegZero | Fin rat

fun bit_length :: "nat \<Rightarrow> nat" where
  "bit_length n = (if n = 0 then 0 else Suc (bit_length (n div 2)))"

declare bit_length.simps [simp del]

definition pow2 :: "int \<Rightarrow> rat" where
  "pow2 e = (if 0 \<le> e then 2 ^ nat e else 1 / 2 ^ nat (- e))"

text \<open>For \<open>0 < q\<close>, \<open>ilog2 q\<close> is the exponent \<open>e\<close> with \<open>2^e \<le> q < 2^(e+1)\<close>.\<close>

definition ilog2 :: "rat \<Rightarrow> int" where
  "ilog2 q = (if 1 \<le> q then int (bit_length (nat \<lfloor>q\<rfloor>)) - 1
              else - int (bit_length (nat (\<lceil>1 / q\<rceil> - 1))))"

definition round_half_even :: "rat \<Rightarrow> int" where
  "round_half_even q =
     (let f = \<lfloor>q\<rfloor>; r = q - of_int f
      in if r < 1 / 2 then f else if 1 / 2 < r then f + 1
         else if even f then f else f + 1)"

definition round64 :: "rat \<Rightarrow> number" where
  "round64 q =
     (if q = 0 then Fin 0
      else
        let a = \<bar>q\<bar>;
            e = max (ilog2 a) (- 1022) - 52;
            m = round_half_even (a / pow2 e);
            r = of_int m * pow2 e
        in if 2 ^ 1024 \<le> r then (if q < 0 then NegInf else PosInf)
           else if m = 0 then (if q < 0 then NegZero else Fin 0)
           else Fin (if q < 0 then - r else r))"

definition is_zero :: "number \<Rightarrow> bool" where
  "is_zero x = (x = NegZero \<or> x = Fin 0)"

definition is_inf :: "number \<Rightarrow> bool" where
  "is_inf x = (x = PosInf \<or> x = NegInf)"

fun is_neg :: "number \<Rightarrow> bool" where
  "is_neg NegInf = True"
| "is_neg NegZero = True"
| "is_neg (Fin a) = (a < 0)"
| "is_neg _ = False"

fun val :: "number \<Rightarrow> rat" where
  "val (Fin a) = a"
| "val _ = 0"

definition signed_zero :: "bool \<Rightarrow> number" where
  "signed_zero s = (if s then NegZero else Fin 0)"

definition signed_inf :: "bool \<Rightarrow> number" where
  "signed_inf s = (if s then NegInf else PosInf)"

text \<open>\<open>a + b\<close> on numbers.\<close>

fun fadd :: "number \<Rightarrow> number \<Rightarrow> number" where
  "fadd NaN _ = NaN"
| "fadd _ NaN = NaN"
| "fadd PosInf NegInf = NaN"
| "fadd NegInf PosInf = NaN"
| "fadd PosInf _ = PosInf"
| "fadd _ PosInf = PosInf"
| "fadd NegInf _ = NegInf"
| "fadd _ NegInf = NegInf"
| "fadd NegZero NegZero = NegZero"
| "fadd NegZero (Fin b) = Fin b"
| "fadd (Fin a) NegZero = Fin a"
| "fadd (Fin a) (Fin b) = round64 (a + b)"

fun fneg :: "number \<Rightarrow> number" where
  "fneg NaN = NaN"
| "fneg PosInf = NegInf"
| "fneg NegInf = PosInf"
| "fneg NegZero = Fin 0"
| "fneg (Fin a) = (if a = 0 then NegZero else Fin (- a))"

text \<open>\<open>a - b\<close>, \<open>a * b\<close> and \<open>a / b\<close> on numbers. Division never raises: a zero divisor
  gives an infinity, or \<open>NaN\<close> for \<open>0 / 0\<close>.\<close>

definition fsub :: "number \<Rightarrow> number \<Rightarrow> number" where
  "fsub a b = fadd a (fneg b)"

definition fmul :: "number \<Rightarrow> number \<Rightarrow> number" where
  "fmul a b =
     (if a = NaN \<or> b = NaN then NaN
      else if (is_inf a \<and> is_zero b) \<or> (is_zero a \<and> is_inf b) then NaN
      else if is_inf a \<or> is_inf b then signed_inf (is_neg a \<noteq> is_neg b)
      else if is_zero a \<or> is_zero b then signed_zero (is_neg a \<noteq> is_neg b)
      else round64 (val a * val b))"

definition fdiv :: "number \<Rightarrow> number \<Rightarrow> number" where
  "fdiv a b =
     (if a = NaN \<or> b = NaN then NaN
      else if (is_inf a \<and> is_inf b) \<or> (is_zero a \<and> is_zero b) then NaN
      else if is_inf a \<or> is_zero b then signed_inf (is_neg a \<noteq> is_neg b)
      else if is_inf b \<or> is_zero a then signed_zero (is_neg a \<noteq> is_neg b)
      else round64 (val a / val b))"

text \<open>\<open>a < b\<close> and \<open>a > b\<close>: false as soon as an operand is \<open>NaN\<close>; the two zeros are
  equal.\<close>

fun fless :: "number \<Rightarrow> number \<Rightarrow> bool" where
  "fless NaN _ = False"
| "fless _ NaN = False"
| "fless PosInf _ = False"
| "fless _ NegInf = False"
| "fless NegInf _ = True"
| "fless _ PosInf = True"
| "fless a b = (val a < val b)"

definition fgt :: "number \<Rightarrow> number \<Rightarrow> bool" where
  "fgt a b = fless b a"

text \<open>\<open>a === b\<close> on numbers.\<close>

definition strict_eq :: "number \<Rightarrow> number \<Rightarrow> bool" where
  "strict_eq a b = (a \<noteq> NaN \<and> b \<noteq> NaN \<and> (a = b \<or> (is_zero a \<and> is_zero b)))"

text \<open>\<open>a || b\<close> with a number on the left: \<open>NaN\<close>, \<open>+0\<close> and \<open>-0\<close> are falsy.\<close>

definition or_else :: "number \<Rightarrow> number \<Rightarrow> number" where
  "or_else a b = (if a = NaN \<or> is_zero a then b else a)"

fun Math_abs :: "number \<Rightarrow> number" where
  "Math_abs NaN = NaN"
| "Math_abs PosInf = PosInf"
| "Math_abs NegInf = PosInf"
| "Math_abs NegZero = Fin 0"
| "Math_abs (Fin a) = Fin \<bar>a\<bar>"

text \<open>\<open>Math.pow(x, 2)\<close>, the only use of \<open>Math.pow\<close> in the detectors. The language
  leaves the precision of \<open>Math.pow\<close> to the implementation; the model takes the correctly
  rounded square \<open>x * x\<close>, which agrees with every implementation on the special values
  and on squares that are representable.\<close>

definition Math_pow_2 :: "number \<Rightarrow> number" where
  "Math_pow_2 x = fmul x x"

fun isqrt :: "nat \<Rightarrow> nat" where
  "isqrt n =
     (if n < 2 then n
      else let r = 2 * isqrt (n div 4) in if (r + 1) * (r + 1) \<le> n then r + 1 else r)"

declare isqrt.simps [simp del]

text \<open>The correctly rounded square root of a rational \<open>0 < a\<close>: with \<open>2^h \<le> sqrt a <
  2^(h+1)\<close> the result is \<open>m * 2^(h-52)\<close>, where \<open>m\<close> is \<open>sqrt a / 2^(h-52)\<close> rounded to
  nearest, decided by comparing \<open>a / 4^(h-52)\<close> with \<open>(k + 1/2)^2\<close>.\<close>

definition round_sqrt :: "rat \<Rightarrow> number" where
  "round_sqrt a =
     (let e = ilog2 a div 2 - 52;
          t = a / pow2 (2 * e);
          k = int (isqrt (nat \<lfloor>t\<rfloor>));
          c = (of_int k + 1 / 2) * (of_int k + 1 / 2);
          m = (if t < c then k else if c < t then k + 1
               else if even k then k else k + 1)
      in Fin (of_int m * pow2 e))"

fun Math_sqrt :: "number \<Rightarrow> number" where
  "Math_sqrt NaN = NaN"
| "Math_sqrt PosInf = PosInf"
| "Math_sqrt NegInf = NaN"
| "Math_sqrt NegZero = NegZero"
| "Math_sqrt (Fin a) = (if a < 0 then NaN else if a = 0 then Fin 0 else round_sqrt a)"

text \<open>\<open>Math.min(...xs)\<close> and \<open>Math.max(...xs)\<close>: \<open>NaN\<close> if any argument is, the
  infinity of the other sign for no argument, and \<open>-0\<close> below \<open>+0\<close>. An engine limits
  the number of arguments of a call (some hundred thousand); the history is kept to 100
  entries by the caller, and the limit is not modelled.\<close>

definition Math_min :: "number list \<Rightarrow> number" where
  "Math_min xs =
     (if NaN \<in> set xs then NaN
      else fold (\<lambda>x lo. if (x = NegZero \<and> lo = Fin 0) \<or> fless x lo then x else lo) xs PosInf)"

definition Math_max :: "number list \<Rightarrow> number" where
  "Math_max xs =
     (if NaN \<in> set xs then NaN
      else fold (\<lambda>x hi. if (x = Fin 0 \<and> hi = NegZero) \<or> fless hi x then x else hi) xs NegInf)"

text \<open>The length of an array as a number: array lengths are below \<open>2^32\<close>, so the
  conversion is exact.\<close>

definition num_of_nat :: "nat \<Rightarrow> number" where
  "num_of_nat n = Fin (of_nat n)"

text \<open>\<open>arr.sort(cmp)\<close>: the sort of the language is stable, and \<open>cmp a b\<close> orders \<open>b\<close>
  before \<open>a\<close> only when its result is greater than 0 (a \<open>NaN\<close> result counts as 0). For
  a comparator that is a consistent order every stable sort returns the same array; the
  model is the stable insertion sort.\<close>

fun insert_by :: "('a \<Rightarrow> 'a \<Rightarrow> number) \<Rightarrow> 'a \<Rightarrow> 'a list \<Rightarrow> 'a list" where
  "insert_by cmp x [] = [x]"
| "insert_by cmp x (y # ys) =
     (if fgt (cmp x y) (Fin 0) then y # insert_by cmp x ys else x # y # ys)"

definition Array_sort :: "('a \<Rightarrow> 'a \<Rightarrow> number) \<Rightarrow> 'a list \<Rightarrow> 'a list" where
  "Array_sort cmp xs = foldr (insert_by cmp) xs []"


section \<open>Values of the request body\<close>

text \<open>
  The handler reads the parsed JSON body without validating it, so a field the detectors
  treat as a number may be absent (\<open>undefined\<close>) or \<open>null\<close>. Every use of such a field
  is an operand of \<open>-\<close>, \<open>+\<close>, \<open>/\<close>, \<open>Math.min\<close> or \<open>Math.max\<close>, which convert it with
  \<open>ToNumber\<close>: \<open>undefined\<close> becomes \<open>NaN\<close> and \<open>null\<close> becomes \<open>+0\<close>. Fields of other
  JSON types (strings, booleans, objects) are outside the model.
\<close>

datatype jsval = Undefined | Null | Num number

fun ToNumber :: "jsval \<Rightarrow> number" where
  "ToNumber Undefined = NaN"
| "ToNumber Null = Fin 0"
| "ToNumber (Num x) = x"

text \<open>\<open>PriceData\<close>: only \<open>price\<close> and \<open>volume\<close> are ever read.\<close>

record PriceData =
  price :: jsval
  volume :: jsval

datatype severity = Low | Medium | High | Critical

text \<open>Strings built from numbers (\<open>x.toFixed(n)\<close> inside a template) are kept symbolic: a
  text is a sequence of literal pieces, of numbers to be printed with a number of decimals
  (\<open>toFixed\<close>) and of numbers printed as they are (\<open>${x}\<close>). No computation reads
  them back.\<close>

datatype text_part = Lit string | ToFixed number nat | ToString number

datatype detail = DVal jsval | DText "text_part list"

record AnomalyResult =
  type :: string
  severity :: severity
  score :: number
  threshold :: number
  message :: "text_part list"
  timestamp :: int
  ticker :: string
  details :: "(string \<times> detail) list"

text \<open>\<open>Date.now()\<close> is the only effect of the handler: the clock is the sequence of
  values its successive calls return.\<close>

type_synonym clock = "nat \<Rightarrow> int"

definition Date_now :: "clock \<Rightarrow> int \<times> clock" where
  "Date_now clk = (clk 0, \<lambda>n. clk (Suc n))"

section \<open>Statistical helper functions\<close>

text \<open>\<open>arr.reduce((a, b) => a + b, 0) / arr.length\<close>\<close>

definition mean :: "number list \<Rightarrow> number" where
  "mean arr = fdiv (foldl fadd (Fin 0) arr) (num_of_nat (length arr))"

definition standardDeviation :: "number list \<Rightarrow> number" where
  "standardDeviation arr =
     (let avg = mean arr;
          squareDiffs = map (\<lambda>value. Math_pow_2 (fsub value avg)) arr
      in Math_sqrt (mean squareDiffs))"

section \<open>The four detectors\<close>

definition detectZScoreAnomaly ::
  "jsval \<Rightarrow> jsval list \<Rightarrow> string \<Rightarrow> number \<Rightarrow> clock \<Rightarrow> AnomalyResult option \<times> clock" where
  "detectZScoreAnomaly currentPrice historicalPrices tk thr clk =
     (if length historicalPrices < 10 then (None, clk)
      else
        let avg = mean (map ToNumber historicalPrices);
            std = standardDeviation (map ToNumber historicalPrices)
        in if strict_eq std (Fin 0) then (None, clk)
           else
             let zScore = fdiv (fsub (ToNumber currentPrice) avg) std;
                 absZScore = Math_abs zScore
             in if fgt absZScore thr then
                  let sev = (if fgt absZScore (Fin 4) then Critical
                             else if fgt absZScore (Fin 3) then High
                             else if fgt absZScore (Fin (5 / 2)) then Medium else Low);
                      direction = (if fgt zScore (Fin 0) then ''above'' else ''below'');
                      (now, clk') = Date_now clk
                  in (Some \<lparr>type = ''zscore'', severity = sev, score = absZScore,
                        threshold = thr,
                        message = [Lit ''Price '', ToFixed absZScore 2, Lit [CHR 0xCF, CHR 0x83, CHR '' ''],
                          Lit direction, Lit '' mean - Unusual '',
                          Lit (if direction = ''above'' then ''spike'' else ''drop''),
                          Lit '' detected''],
                        timestamp = now, ticker = tk,
                        details = [(''currentPrice'', DVal currentPrice),
                          (''mean'', DVal (Num avg)),
                          (''standardDeviation'', DVal (Num std)),
                          (''zScore'', DVal (Num zScore)),
                          (''direction'', DText [Lit direction]),
                          (''percentDeviation'',
                            DText [ToFixed (fmul (fdiv (fsub (ToNumber currentPrice) avg) avg)
                              (Fin 100)) 2, Lit ''%''])]\<rparr>, clk')
                else (None, clk))"

definition detectVolumeSpikeAnomaly ::
  "jsval \<Rightarrow> jsval list \<Rightarrow> string \<Rightarrow> number \<Rightarrow> clock \<Rightarrow> AnomalyResult option \<times> clock" where
  "detectVolumeSpikeAnomaly currentVolume historicalVolumes tk thr clk =
     (if length historicalVolumes < 10 then (None, clk)
      else
        let avgVolume = mean (map ToNumber historicalVolumes);
            volumeRatio = fdiv (ToNumber currentVolume) avgVolume
        in if fgt volumeRatio thr then
             let sev = (if fgt volumeRatio (Fin 10) then Critical
                        else if fgt volumeRatio (Fin 5) then High
                        else if fgt volumeRatio (Fin 3) then Medium else Low);
                 (now, clk') = Date_now clk
             in (Some \<lparr>type = ''volume_spike'', severity = sev, score = volumeRatio,
                   threshold = thr,
                   message = [Lit ''Volume '', ToFixed volumeRatio 1,
                     Lit ''x average - Major trading activity detected''],
                   timestamp = now, ticker = tk,
                   details = [(''currentVolume'', DVal currentVolume),
                     (''averageVolume'', DVal (Num avgVolume)),
                     (''volumeRatio'', DVal (Num volumeRatio)),
                     (''percentIncrease'',
                       DText [ToFixed (fmul (fsub volumeRatio (Fin 1)) (Fin 100)) 1,
                         Lit ''%''])]\<rparr>, clk')
           else (None, clk))"

text \<open>\<open>prices.slice(-maWindow)\<close>: a negative start counts from the end of the array
  (and stops at its beginning), a start that is not negative counts from the
  beginning.\<close>

definition slice_from :: "int \<Rightarrow> 'a list \<Rightarrow> 'a list" where
  "slice_from start xs =
     (if start < 0 then drop (nat (int (length xs) + start)) xs else drop (nat start) xs)"

definition detectPriceDeviation ::
  "jsval \<Rightarrow> jsval list \<Rightarrow> string \<Rightarrow> int \<Rightarrow> number \<Rightarrow> clock
     \<Rightarrow> AnomalyResult option \<times> clock" where
  "detectPriceDeviation currentPrice prices tk maWindow thr clk =
     (if int (length prices) < maWindow then (None, clk)
      else
        let recentPrices = slice_from (- maWindow) prices;
            movingAverage = mean (map ToNumber recentPrices);
            deviation =
              fmul (fdiv (fsub (ToNumber currentPrice) movingAverage) movingAverage) (Fin 100);
            absDeviation = Math_abs deviation
        in if fgt absDeviation thr then
             let sev = (if fgt absDeviation (Fin 15) then Critical
                        else if fgt absDeviation (Fin 10) then High
                        else if fgt absDeviation (Fin 5) then Medium else Low);
                 direction = (if fgt deviation (Fin 0) then ''above'' else ''below'');
                 (now, clk') = Date_now clk
             in (Some \<lparr>type = ''price_deviation'', severity = sev, score = absDeviation,
                   threshold = thr,
                   message = [Lit ''Price '', ToFixed absDeviation 1, Lit ''% '',
                     Lit direction, Lit '' '', ToString (Fin (of_int maWindow)),
                     Lit ''-period MA - Trend deviation alert''],
                   timestamp = now, ticker = tk,
                   details = [(''currentPrice'', DVal currentPrice),
                     (''movingAverage'', DVal (Num movingAverage)),
                     (''deviation'', DText [ToFixed deviation 2, Lit ''%'']),
                     (''direction'', DText [Lit direction]),
                     (''maWindow'', DVal (Num (Fin (of_int maWindow))))]\<rparr>, clk')
           else (None, clk))"

text \<open>The distance of two normalised points,
  \<open>Math.sqrt(Math.pow(a.price - b.price, 2) + Math.pow(a.volume - b.volume, 2))\<close>.\<close>

definition distance :: "number \<times> number \<Rightarrow> number \<times> number \<Rightarrow> number" where
  "distance a b =
     Math_sqrt (fadd (Math_pow_2 (fsub (fst a) (fst b))) (Math_pow_2 (fsub (snd a) (snd b))))"

text \<open>\<open>arr.filter((__, j) => j !== i)\<close>\<close>

definition without_index :: "nat \<Rightarrow> 'a list \<Rightarrow> 'a list" where
  "without_index i xs = take i xs @ drop (Suc i) xs"

definition detectLOFAnomaly ::
  "jsval \<Rightarrow> jsval \<Rightarrow> PriceData list \<Rightarrow> string \<Rightarrow> number \<Rightarrow> clock
     \<Rightarrow> AnomalyResult option \<times> clock" where
  "detectLOFAnomaly currentPrice currentVolume historicalData tk thr clk =
     (if length historicalData < 20 then (None, clk)
      else
        let prices = map (\<lambda>d. ToNumber (price d)) historicalData;
            volumes = map (\<lambda>d. ToNumber (volume d)) historicalData;
            priceMin = Math_min prices;
            priceMax = Math_max prices;
            volumeMin = Math_min volumes;
            volumeMax = Math_max volumes;
            normalizedCurrent =
              (fdiv (fsub (ToNumber currentPrice) priceMin)
                 (or_else (fsub priceMax priceMin) (Fin 1)),
               fdiv (fsub (ToNumber currentVolume) volumeMin)
                 (or_else (fsub volumeMax volumeMin) (Fin 1)));
            normalizedHistorical =
              map (\<lambda>d. (fdiv (fsub (ToNumber (price d)) priceMin)
                            (or_else (fsub priceMax priceMin) (Fin 1)),
                          fdiv (fsub (ToNumber (volume d)) volumeMin)
                            (or_else (fsub volumeMax volumeMin) (Fin 1)))) historicalData;
            k = min 5 (length historicalData - 1);
            distances =
              Array_sort fsub (map (\<lambda>h. distance normalizedCurrent h) normalizedHistorical);
            kDistance = take k distances;
            avgKDistance = mean kDistance;
            historicalKDistances =
              map (\<lambda>i. mean (take k (Array_sort fsub
                     (map (\<lambda>h. distance (normalizedHistorical ! i) h)
                        (without_index i normalizedHistorical)))))
                [0..<length normalizedHistorical];
            avgHistoricalKDistance = mean historicalKDistances;
            lofScore = fdiv avgKDistance (or_else avgHistoricalKDistance (Fin 1))
        in if fgt lofScore thr then
             let sev = (if fgt lofScore (Fin 3) then Critical
                        else if fgt lofScore (Fin 2) then High
                        else if fgt lofScore (Fin (3 / 2)) then Medium else Low);
                 (now, clk') = Date_now clk
             in (Some \<lparr>type = ''lof'', severity = sev, score = lofScore, threshold = thr,
                   message = [Lit ''Local Outlier Factor '', ToFixed lofScore 2,
                     Lit '' - Multi-dimensional anomaly detected''],
                   timestamp = now, ticker = tk,
                   details = [(''lofScore'', DVal (Num lofScore)),
                     (''avgKDistance'', DVal (Num avgKDistance)),
                     (''avgHistoricalKDistance'', DVal (Num avgHistoricalKDistance)),
                     (''interpretation'',
                       DText [Lit ''Point is significantly different from local neighborhood''])]\<rparr>,
                 clk')
           else (None, clk))"

section \<open>The route handler\<close>

text \<open>The body of the request after \<open>request.json()\<close>. Each of the three top-level fields
  may be missing or \<open>null\<close> (\<open>None\<close>); the handler tests them with \<open>!\<close>, which also rejects
  the empty string. The field \<open>ticker\<close> of the body is \<open>req_ticker\<close> here, and the fields
  \<open>ticker\<close> and \<open>timestamp\<close> of the response are \<open>res_ticker\<close> and \<open>res_timestamp\<close>, since a
  finding has fields of these names.\<close>

record request_body =
  req_ticker :: "string option"
  currentData :: "PriceData option"
  historicalData :: "PriceData list option"

record summary =
  hasAnomalies :: bool
  highestSeverity :: "severity option"
  types :: "string list"

record EvaluationResult =
  res_ticker :: string
  res_timestamp :: int
  anomalyCount :: nat
  anomalies :: "AnomalyResult list"
  summary :: summary

text \<open>\<open>NextResponse.json(body, {status})\<close>: an error body with its status, or the result
  with status 200.\<close>

datatype response = Json_error nat string | Json_ok EvaluationResult

definition severityOrder :: "severity \<Rightarrow> number" where
  "severityOrder s = (case s of Critical \<Rightarrow> Fin 0 | High \<Rightarrow> Fin 1 | Medium \<Rightarrow> Fin 2 | Low \<Rightarrow> Fin 3)"

text \<open>\<open>if (a) anomalies.push(a)\<close>\<close>

definition push_if :: "'a option \<Rightarrow> 'a list \<Rightarrow> 'a list" where
  "push_if a xs = (case a of None \<Rightarrow> xs | Some x \<Rightarrow> xs @ [x])"

text \<open>The loop that fills \<open>typesList\<close>.\<close>

definition typesList_of :: "AnomalyResult list \<Rightarrow> string list" where
  "typesList_of as = fold (\<lambda>a tl. if type a \<in> set tl then tl else tl @ [type a]) as []"

text \<open>The four detector calls of the handler, in their order, with the default thresholds
  and window, each pushing its finding if it has one. The result is the array before it
  is sorted, and the clock after the calls.\<close>

definition run_detectors ::
  "string \<Rightarrow> PriceData \<Rightarrow> PriceData list \<Rightarrow> clock \<Rightarrow> AnomalyResult list \<times> clock" where
  "run_detectors tk cur hist clk =
     (let historicalPrices = map price hist;
          historicalVolumes = map volume hist;
          (zScoreAnomaly, clk1) =
            detectZScoreAnomaly (price cur) historicalPrices tk (Fin (5 / 2)) clk;
          as1 = push_if zScoreAnomaly [];
          (volumeAnomaly, clk2) =
            detectVolumeSpikeAnomaly (volume cur) historicalVolumes tk (Fin 3) clk1;
          as2 = push_if volumeAnomaly as1;
          (priceDeviation, clk3) =
            detectPriceDeviation (price cur) historicalPrices tk 20 (Fin 5) clk2;
          as3 = push_if priceDeviation as2;
          (lofAnomaly, clk4) =
            detectLOFAnomaly (price cur) (volume cur) hist tk (Fin (3 / 2)) clk3;
          as4 = push_if lofAnomaly as3
      in (as4, clk4))"

text \<open>\<open>POST\<close>. The argument is \<open>None\<close> when \<open>request.json()\<close> throws; the \<open>catch\<close> block
  answers with status 500.\<close>

definition POST :: "request_body option \<Rightarrow> clock \<Rightarrow> response" where
  "POST request clk =
     (case request of
        None \<Rightarrow> Json_error 500 ''Anomaly detection failed''
      | Some body \<Rightarrow>
          (case (req_ticker body, currentData body, historicalData body) of
             (Some tk, Some cur, Some hist) \<Rightarrow>
               if tk = [] then Json_error 400 ''Missing required data''
               else
                 let (collected, clk') = run_detectors tk cur hist clk;
                     sorted_anomalies =
                       Array_sort (\<lambda>a b. fsub (severityOrder (severity a))
                                               (severityOrder (severity b))) collected;
                     typesList = typesList_of sorted_anomalies;
                     (now, clk'') = Date_now clk'
                 in Json_ok \<lparr>res_ticker = tk, res_timestamp = now,
                      anomalyCount = length sorted_anomalies,
                      anomalies = sorted_anomalies,
                      summary = \<lparr>hasAnomalies = (0 < length sorted_anomalies),
                        highestSeverity =
                          (case sorted_anomalies of [] \<Rightarrow> None | a # _ \<Rightarrow> Some (severity a)),
                        types = typesList\<rparr>\<rparr>
           | _ \<Rightarrow> Json_error 400 ''Missing required data''))"

section \<open>Notions of the specification\<close>

text \<open>The severity rank of the specification, \<open>{critical:0, high:1, medium:2, low:3}\<close>, as a
  natural number.\<close>

definition severity_rank :: "severity \<Rightarrow> nat" where
  "severity_rank s = (case s of Critical \<Rightarrow> 0 | High \<Rightarrow> 1 | Medium \<Rightarrow> 2 | Low \<Rightarrow> 3)"

text \<open>The position of a detector in the invocation order zscore, volume_spike,
  price_deviation, lof, read from the kind of its finding.\<close>

definition detector_index :: "string \<Rightarrow> nat" where
  "detector_index t =
     (if t = ''zscore'' then 0 else if t = ''volume_spike'' then 1
      else if t = ''price_deviation'' then 2 else 3)"

text \<open>A sequence with its duplicates removed, in first-occurrence order.\<close>

fun first_occurrences :: "'a list \<Rightarrow> 'a list" where
  "first_occurrences [] = []"
| "first_occurrences (x # xs) = x # first_occurrences (filter (\<lambda>y. y \<noteq> x) xs)"

text \<open>The findings of a response (none for an error response), and a response with every
  reading of the clock erased.\<close>

fun findings :: "response \<Rightarrow> AnomalyResult list" where
  "findings (Json_ok r) = anomalies r"
| "findings (Json_error st msg) = []"

fun erase_time :: "response \<Rightarrow> response" where
  "erase_time (Json_ok r) =
     Json_ok (r\<lparr>res_timestamp := 0, anomalies := map (\<lambda>a. a\<lparr>timestamp := 0\<rparr>) (anomalies r)\<rparr>)"
| "erase_time (Json_error st msg) = Json_error st msg"

text \<open>The score of the LOF detector on a constant history with price \<open>p\<close> and volume
  \<open>v\<close>: every historical point is normalised to the origin, the three denominators are 1,
  and the score is the mean of five copies of the distance of the current point from the
  origin.\<close>

definition lof_constant_score :: "jsval \<Rightarrow> jsval \<Rightarrow> rat \<Rightarrow> rat \<Rightarrow> number" where
  "lof_constant_score cp cv p v =
     fdiv (mean (replicate 5
       (distance (fdiv (fsub (ToNumber cp) (Fin p)) (Fin 1),
                  fdiv (fsub (ToNumber cv) (Fin v)) (Fin 1)) (Fin 0, Fin 0)))) (Fin 1)"

section \<open>Bounds on numbers\<close>

text \<open>A number is finite within \<open>B\<close> when it is a zero or a finite number of magnitude at
  most \<open>B\<close>; it is at least \<open>B\<close> when it is \<open>+Infinity\<close> or a finite number not below
  \<open>B\<close>.\<close>

definition finite_within :: "rat \<Rightarrow> number \<Rightarrow> bool" where
  "finite_within B x = (x = NegZero \<or> (\<exists>r. x = Fin r \<and> \<bar>r\<bar> \<le> B))"

definition nonneg_within :: "rat \<Rightarrow> number \<Rightarrow> bool" where
  "nonneg_within B x = (\<exists>r. x = Fin r \<and> 0 \<le> r \<and> r \<le> B)"

definition at_least :: "rat \<Rightarrow> number \<Rightarrow> bool" where
  "at_least B x = (x = PosInf \<or> (\<exists>r. x = Fin r \<and> B \<le> r))"

section \<open>Example requests\<close>

text \<open>Ten observations, nine at price 1 and one at price 11, all with volume 1; the
  current observation has price 20 and volume 11. The mean price is 2 and the standard
  deviation 3, so the z-score is 6; the volume ratio is 11.\<close>

definition example_history :: "PriceData list" where
  "example_history =
     replicate 9 \<lparr>price = Num (Fin 1), volume = Num (Fin 1)\<rparr> @
     [\<lparr>price = Num (Fin 11), volume = Num (Fin 1)\<rparr>]"

definition example_request :: request_body where
  "example_request =
     \<lparr>req_ticker = Some ''BTC'',
      currentData = Some \<lparr>price = Num (Fin 20), volume = Num (Fin 11)\<rparr>,
      historicalData = Some example_history\<rparr>"

definition example_zscore :: AnomalyResult where
  "example_zscore =
     \<lparr>type = ''zscore'', severity = Critical, score = Fin 6, threshold = Fin (5 / 2),
      message = [Lit ''Price '', ToFixed (Fin 6) 2, Lit [CHR 0xCF, CHR 0x83, CHR '' ''],
        Lit ''above'', Lit '' mean - Unusual '', Lit ''spike'', Lit '' detected''],
      timestamp = 0, ticker = ''BTC'',
      details = [(''currentPrice'', DVal (Num (Fin 20))), (''mean'', DVal (Num (Fin 2))),
        (''standardDeviation'', DVal (Num (Fin 3))), (''zScore'', DVal (Num (Fin 6))),
        (''direction'', DText [Lit ''above'']),
        (''percentDeviation'', DText [ToFixed (Fin 900) 2, Lit ''%''])]\<rparr>"

definition example_volume_spike :: AnomalyResult where
  "example_volume_spike =
     \<lparr>type = ''volume_spike'', severity = Critical, score = Fin 11, threshold = Fin 3,
      message = [Lit ''Volume '', ToFixed (Fin 11) 1,
        Lit ''x average - Major trading activity detected''],
      timestamp = 1, ticker = ''BTC'',
      details = [(''currentVolume'', DVal (Num (Fin 11))), (''averageVolume'', DVal (Num (Fin 1))),
        (''volumeRatio'', DVal (Num (Fin 11))),
        (''percentIncrease'', DText [ToFixed (Fin 1000) 1, Lit ''%''])]\<rparr>"

definition example_result :: EvaluationResult where
  "example_result =
     \<lparr>res_ticker = ''BTC'', res_timestamp = 2, anomalyCount = 2,
      anomalies = [example_zscore, example_volume_spike],
      summary = \<lparr>hasAnomalies = True, highestSeverity = Some Critical,
        types = [''zscore'', ''volume_spike'']\<rparr>\<rparr>"

text \<open>The same request with the price of the current observation absent.\<close>

definition request_without_price :: request_body where
  "request_without_price =
     \<lparr>req_ticker = Some ''BTC'',
      currentData = Some \<lparr>price = Undefined, volume = Num (Fin 11)\<rparr>,
      historicalData = Some example_history\<rparr>"

definition result_without_price :: EvaluationResult where
  "result_without_price =
     \<lparr>res_ticker = ''BTC'', res_timestamp = 1, anomalyCount = 1,
      anomalies = [example_volume_spike\<lparr>timestamp := 0\<rparr>],
      summary = \<lparr>hasAnomalies = True, highestSeverity = Some Critical,
        types = [''volume_spike'']\<rparr>\<rparr>"

section \<open>Evaluation rules\<close>

subsection \<open>Computing on numerals\<close>

text \<open>Equations that let the simplifier compute \<open>bit_length\<close>, \<open>isqrt\<close>, floors and
  ceilings on numerals, and the definitions of the arithmetic to unfold when a number is
  evaluated.\<close>

lemma bit_length_0 [simp]: "bit_length 0 = 0" by (simp add: bit_length.simps)
lemma bit_length_Suc_0 [simp]: "bit_length (Suc 0) = 1" by (simp add: bit_length.simps)
lemma bit_length_One [simp]: "bit_length (numeral Num.One) = 1" by (simp add: bit_length.simps)
lemma bit_length_Bit0 [simp]: "bit_length (numeral (Num.Bit0 k)) = 1 + bit_length (numeral k)"
  by (subst bit_length.simps) (simp add: numeral_Bit0_div_2)
lemma bit_length_Bit1 [simp]: "bit_length (numeral (Num.Bit1 k)) = 1 + bit_length (numeral k)"
  by (subst bit_length.simps) (simp add: numeral_Bit1_div_2)
lemma floor_rat_numeral [simp]: "\<lfloor>numeral a / numeral b :: rat\<rfloor> = numeral a div numeral b"
  by (metis floor_divide_of_int_eq of_int_numeral)
lemma ceiling_rat_numeral [simp]: "\<lceil>numeral a / numeral b :: rat\<rceil> = - ((- numeral a) div numeral b)"
  by (metis ceiling_divide_eq_div of_int_numeral)
lemma floor_rat_one_numeral [simp]: "\<lfloor>1 / numeral b :: rat\<rfloor> = 1 div numeral b"
  by (metis floor_divide_of_int_eq of_int_numeral of_int_1)
lemma ceiling_rat_one_numeral [simp]: "\<lceil>1 / numeral b :: rat\<rceil> = - ((- 1) div numeral b)"
  by (metis ceiling_divide_eq_div of_int_numeral of_int_1)
lemma isqrt_0 [simp]: "isqrt 0 = 0" by (simp add: isqrt.simps)
lemma isqrt_Suc_0 [simp]: "isqrt (Suc 0) = 1" by (simp add: isqrt.simps)
lemma isqrt_numeral [simp]:
  "isqrt (numeral k) =
     (if (numeral k :: nat) < 2 then numeral k
      else let r = 2 * isqrt (numeral k div 4) in if (r + 1) * (r + 1) \<le> numeral k then r + 1 else r)"
  by (rule isqrt.simps)

lemmas number_eval = round64_def ilog2_def pow2_def round_half_even_def round_sqrt_def Let_def
  fsub_def fdiv_def fmul_def fgt_def is_zero_def is_inf_def signed_zero_def signed_inf_def
  strict_eq_def or_else_def Math_pow_2_def num_of_nat_def

subsection \<open>The sort by severity\<close>

text \<open>The comparator of the handler orders two findings by their severity rank, so the sort
  of the handler is the stable sort by that key.\<close>

lemma severityOrder_cmp:
  "fgt (fsub (severityOrder a) (severityOrder b)) (Fin 0) \<longleftrightarrow> severity_rank b < severity_rank a"
  by (cases a; cases b) (simp_all add: severityOrder_def severity_rank_def number_eval)

lemma insert_by_severity:
  "insert_by (\<lambda>a b. fsub (severityOrder (severity a)) (severityOrder (severity b))) x ys =
   insort_key (\<lambda>a. severity_rank (severity a)) x ys"
  by (induction ys) (simp_all add: severityOrder_cmp not_less)

lemma Array_sort_severity:
  "Array_sort (\<lambda>a b. fsub (severityOrder (severity a)) (severityOrder (severity b))) xs =
   sort_key (\<lambda>a. severity_rank (severity a)) xs"
  by (induction xs) (simp_all add: Array_sort_def sort_key_def insert_by_severity)

subsection \<open>What a detector returns\<close>

text \<open>A finding carries the kind of its detector, the threshold it was called with, and a
  score above that threshold. The clock only sets the timestamp.\<close>

lemma detectZScoreAnomaly_shape:
  "fst (detectZScoreAnomaly cp hp tk thr clk) = Some a \<Longrightarrow>
   type a = ''zscore'' \<and> fgt (score a) thr \<and> threshold a = thr"
  by (auto simp: detectZScoreAnomaly_def Let_def Date_now_def split: if_splits)

lemma detectVolumeSpikeAnomaly_shape:
  "fst (detectVolumeSpikeAnomaly cv hv tk thr clk) = Some a \<Longrightarrow>
   type a = ''volume_spike'' \<and> fgt (score a) thr \<and> threshold a = thr"
  by (auto simp: detectVolumeSpikeAnomaly_def Let_def Date_now_def split: if_splits)

lemma detectPriceDeviation_shape:
  "fst (detectPriceDeviation cp ps tk w thr clk) = Some a \<Longrightarrow>
   type a = ''price_deviation'' \<and> fgt (score a) thr \<and> threshold a = thr"
  by (auto simp: detectPriceDeviation_def Let_def Date_now_def split: if_splits)

lemma detectLOFAnomaly_shape:
  "fst (detectLOFAnomaly cp cv hs tk thr clk) = Some a \<Longrightarrow>
   type a = ''lof'' \<and> fgt (score a) thr \<and> threshold a = thr"
  by (auto simp: detectLOFAnomaly_def Let_def Date_now_def split: if_splits)

lemma detectZScoreAnomaly_clock:
  "detectZScoreAnomaly cp hp tk thr clk =
   (let r = fst (detectZScoreAnomaly cp hp tk thr (\<lambda>_. 0))
    in (map_option (timestamp_update (\<lambda>_. clk 0)) r, if r = None then clk else (\<lambda>n. clk (Suc n))))"
  by (simp add: detectZScoreAnomaly_def Let_def Date_now_def)

lemma detectVolumeSpikeAnomaly_clock:
  "detectVolumeSpikeAnomaly cp hp tk thr clk =
   (let r = fst (detectVolumeSpikeAnomaly cp hp tk thr (\<lambda>_. 0))
    in (map_option (timestamp_update (\<lambda>_. clk 0)) r, if r = None then clk else (\<lambda>n. clk (Suc n))))"
  by (simp add: detectVolumeSpikeAnomaly_def Let_def Date_now_def)

lemma detectPriceDeviation_clock:
  "detectPriceDeviation cp hp tk w thr clk =
   (let r = fst (detectPriceDeviation cp hp tk w thr (\<lambda>_. 0))
    in (map_option (timestamp_update (\<lambda>_. clk 0)) r, if r = None then clk else (\<lambda>n. clk (Suc n))))"
  by (simp add: detectPriceDeviation_def Let_def Date_now_def)

lemma detectLOFAnomaly_clock:
  "detectLOFAnomaly cp cv hs tk thr clk =
   (let r = fst (detectLOFAnomaly cp cv hs tk thr (\<lambda>_. 0))
    in (map_option (timestamp_update (\<lambda>_. clk 0)) r, if r = None then clk else (\<lambda>n. clk (Suc n))))"
  by (simp add: detectLOFAnomaly_def Let_def Date_now_def)

subsection \<open>The list of kinds\<close>

lemma typesList_of_acc:
  "fold (\<lambda>a tl. if type a \<in> set tl then tl else tl @ [type a]) as acc =
   acc @ first_occurrences (filter (\<lambda>t. t \<notin> set acc) (map type as))"
proof (induction as arbitrary: acc)
  case Nil
  then show ?case by simp
next
  case (Cons a as)
  have "filter (\<lambda>t. t \<noteq> type a \<and> t \<notin> set acc) (map type as) =
        filter (\<lambda>t. t \<notin> set acc \<and> t \<noteq> type a) (map type as)"
    by (rule filter_cong) auto
  with Cons show ?case by (auto simp: conj_commute)
qed

lemma typesList_of_first_occurrences: "typesList_of as = first_occurrences (map type as)"
  by (simp add: typesList_of_def typesList_of_acc)

subsection \<open>Order of the sorted findings\<close>

lemma insort_rank_order:
  fixes f :: "'a \<Rightarrow> nat" and g :: "'a \<Rightarrow> nat"
  assumes "sorted_wrt (\<lambda>a b. f a < f b \<or> (f a = f b \<and> g a < g b)) ys"
    and "\<forall>y \<in> set ys. g x < g y"
  shows "sorted_wrt (\<lambda>a b. f a < f b \<or> (f a = f b \<and> g a < g b)) (insort_key f x ys)"
  using assms
proof (induction ys)
  case Nil
  then show ?case by simp
next
  case (Cons y ys)
  then show ?case by (auto simp: set_insort_key)
qed

lemma sort_rank_order:
  fixes f :: "'a \<Rightarrow> nat" and g :: "'a \<Rightarrow> nat"
  assumes "sorted_wrt (\<lambda>a b. g a < g b) xs"
  shows "sorted_wrt (\<lambda>a b. f a < f b \<or> (f a = f b \<and> g a < g b)) (sort_key f xs)"
  using assms
proof (induction xs)
  case Nil
  then show ?case by simp
next
  case (Cons x xs)
  then show ?case by (simp add: sort_key_def [symmetric] insort_rank_order)
qed
subsection \<open>The four detector calls\<close>

lemma run_detectors_expand:
  "\<exists>c1 c2 c3. fst (run_detectors tk cur hist clk) =
     push_if (fst (detectLOFAnomaly (price cur) (volume cur) hist tk (Fin (3 / 2)) c3))
       (push_if (fst (detectPriceDeviation (price cur) (map price hist) tk 20 (Fin 5) c2))
          (push_if (fst (detectVolumeSpikeAnomaly (volume cur) (map volume hist) tk (Fin 3) c1))
             (push_if (fst (detectZScoreAnomaly (price cur) (map price hist) tk (Fin (5 / 2)) clk))
                [])))"
  by (simp add: run_detectors_def Let_def split_beta) blast

lemma run_detectors_ordered:
  "sorted_wrt (\<lambda>a b. detector_index (type a) < detector_index (type b))
     (fst (run_detectors tk cur hist clk))"
proof -
  obtain c1 c2 c3 where e: "fst (run_detectors tk cur hist clk) =
     push_if (fst (detectLOFAnomaly (price cur) (volume cur) hist tk (Fin (3 / 2)) c3))
       (push_if (fst (detectPriceDeviation (price cur) (map price hist) tk 20 (Fin 5) c2))
          (push_if (fst (detectVolumeSpikeAnomaly (volume cur) (map volume hist) tk (Fin 3) c1))
             (push_if (fst (detectZScoreAnomaly (price cur) (map price hist) tk (Fin (5 / 2)) clk))
                [])))"
    using run_detectors_expand by blast
  show ?thesis
    unfolding e
    by (auto simp: push_if_def detector_index_def sorted_wrt_append split: option.splits
        dest!: detectZScoreAnomaly_shape detectVolumeSpikeAnomaly_shape
          detectPriceDeviation_shape detectLOFAnomaly_shape)
qed

lemma set_push_if: "a \<in> set (push_if r xs) \<longleftrightarrow> r = Some a \<or> a \<in> set xs"
  by (cases r) (auto simp: push_if_def)

lemma fgt_nonneg_threshold: "fgt x (Fin t) \<Longrightarrow> 0 \<le> t \<Longrightarrow> fgt x (Fin 0)"
  by (cases x) (auto simp: fgt_def)

lemma fless_NaN_right: "\<not> fless x NaN"
  by (cases x) simp_all

lemma run_detectors_scores:
  assumes a: "a \<in> set (fst (run_detectors tk cur hist clk))"
  shows "fgt (score a) (threshold a) \<and> fgt (score a) (Fin 0)"
proof -
  obtain c1 c2 c3 where e: "fst (run_detectors tk cur hist clk) =
     push_if (fst (detectLOFAnomaly (price cur) (volume cur) hist tk (Fin (3 / 2)) c3))
       (push_if (fst (detectPriceDeviation (price cur) (map price hist) tk 20 (Fin 5) c2))
          (push_if (fst (detectVolumeSpikeAnomaly (volume cur) (map volume hist) tk (Fin 3) c1))
             (push_if (fst (detectZScoreAnomaly (price cur) (map price hist) tk (Fin (5 / 2)) clk))
                [])))"
    using run_detectors_expand by blast
  from a have "fgt (score a) (threshold a) \<and>
      threshold a \<in> {Fin (5 / 2), Fin 3, Fin 5, Fin (3 / 2)}"
    unfolding e set_push_if
    by (auto dest!: detectZScoreAnomaly_shape detectVolumeSpikeAnomaly_shape
          detectPriceDeviation_shape detectLOFAnomaly_shape)
  then show ?thesis
    by (auto intro: fgt_nonneg_threshold)
qed

subsection \<open>A successful response\<close>

lemma POST_ok:
  "POST request clk = Json_ok r \<Longrightarrow>
   \<exists>body tk cur hist. request = Some body \<and> req_ticker body = Some tk \<and> tk \<noteq> [] \<and>
     currentData body = Some cur \<and> historicalData body = Some hist \<and>
     anomalies r = sort_key (\<lambda>a. severity_rank (severity a)) (fst (run_detectors tk cur hist clk)) \<and>
     anomalyCount r = length (anomalies r) \<and>
     hasAnomalies (summary r) = (0 < length (anomalies r)) \<and>
     highestSeverity (summary r) = (case anomalies r of [] \<Rightarrow> None | a # _ \<Rightarrow> Some (severity a)) \<and>
     types (summary r) = typesList_of (anomalies r) \<and> res_ticker r = tk"
  by (auto simp: POST_def Let_def split_beta Array_sort_severity split: option.splits if_splits)

subsection \<open>The example request\<close>

lemma replicate_numeral: "replicate (numeral k) x = x # replicate (pred_numeral k) x"
  by (simp add: numeral_eq_Suc)

lemma example_prices:
  "map ToNumber (map price example_history) =
   [Fin 1, Fin 1, Fin 1, Fin 1, Fin 1, Fin 1, Fin 1, Fin 1, Fin 1, Fin 11]"
  by (simp add: example_history_def replicate_numeral)

lemma example_volumes:
  "map ToNumber (map volume example_history) =
   [Fin 1, Fin 1, Fin 1, Fin 1, Fin 1, Fin 1, Fin 1, Fin 1, Fin 1, Fin 1]"
  by (simp add: example_history_def replicate_numeral)

lemma example_mean_prices: "mean (map ToNumber (map price example_history)) = Fin 2"
  unfolding example_prices by (simp add: mean_def number_eval)

lemma example_square_diffs:
  "Math_pow_2 (fsub (Fin 1) (Fin 2)) = Fin 1" "Math_pow_2 (fsub (Fin 11) (Fin 2)) = Fin 81"
  by (simp_all add: number_eval)

lemma example_std_prices: "standardDeviation (map ToNumber (map price example_history)) = Fin 3"
  unfolding standardDeviation_def Let_def example_mean_prices
  unfolding example_prices list.map example_square_diffs
  by (simp add: mean_def number_eval)

lemma example_mean_volumes: "mean (map ToNumber (map volume example_history)) = Fin 1"
  unfolding example_volumes by (simp add: mean_def number_eval)

lemma example_length: "length example_history = 10"
  by (simp add: example_history_def)

lemma example_detectZScoreAnomaly:
  "detectZScoreAnomaly (Num (Fin 20)) (map price example_history) ''BTC'' (Fin (5 / 2)) clk =
   (Some (example_zscore\<lparr>timestamp := clk 0\<rparr>), \<lambda>n. clk (Suc n))"
  unfolding detectZScoreAnomaly_def example_mean_prices example_std_prices Let_def
  by (simp add: example_length example_zscore_def Date_now_def number_eval)

lemma example_detectVolumeSpikeAnomaly:
  "detectVolumeSpikeAnomaly (Num (Fin 11)) (map volume example_history) ''BTC'' (Fin 3) clk =
   (Some (example_volume_spike\<lparr>timestamp := clk 0\<rparr>), \<lambda>n. clk (Suc n))"
  unfolding detectVolumeSpikeAnomaly_def example_mean_volumes Let_def
  by (simp add: example_length example_volume_spike_def Date_now_def number_eval)

lemma example_POST: "POST (Some example_request) (\<lambda>n. int n) = Json_ok example_result"
  unfolding POST_def example_request_def run_detectors_def Let_def
  by (simp add: example_detectZScoreAnomaly example_detectVolumeSpikeAnomaly
      detectPriceDeviation_def detectLOFAnomaly_def
      example_length push_if_def Array_sort_severity typesList_of_def Date_now_def
      example_result_def example_zscore_def example_volume_spike_def severity_rank_def)


subsection \<open>The two kinds of response\<close>

lemma sort_key_Nil_iff: "sort_key f xs = [] \<longleftrightarrow> xs = []"
  by (metis length_sort length_0_conv)

lemma highest_of_map:
  "(case xs of [] \<Rightarrow> None | a # _ \<Rightarrow> Some (severity a)) =
   (case map severity xs of [] \<Rightarrow> None | s # _ \<Rightarrow> Some s)"
  by (cases xs) simp_all

lemma POST_present:
  assumes "req_ticker body = Some tk" "tk \<noteq> []" "currentData body = Some cur"
    "historicalData body = Some hist"
  shows "POST (Some body) clk =
    Json_ok \<lparr>res_ticker = tk,
      res_timestamp = snd (run_detectors tk cur hist clk) 0,
      anomalyCount = length (fst (run_detectors tk cur hist clk)),
      anomalies = sort_key (\<lambda>a. severity_rank (severity a)) (fst (run_detectors tk cur hist clk)),
      summary = \<lparr>hasAnomalies = (0 < length (fst (run_detectors tk cur hist clk))),
        highestSeverity =
          (case map severity (sort_key (\<lambda>a. severity_rank (severity a))
                  (fst (run_detectors tk cur hist clk))) of
             [] \<Rightarrow> None | s # _ \<Rightarrow> Some s),
        types = first_occurrences (map type (sort_key (\<lambda>a. severity_rank (severity a))
                  (fst (run_detectors tk cur hist clk))))\<rparr>\<rparr>"
  using assms
  by (simp add: POST_def Let_def split_beta Array_sort_severity Date_now_def
      typesList_of_first_occurrences sort_key_Nil_iff highest_of_map)

lemma POST_missing:
  assumes "req_ticker body = None \<or> req_ticker body = Some [] \<or> currentData body = None \<or>
    historicalData body = None"
  shows "POST (Some body) clk = Json_error 400 ''Missing required data''"
  using assms by (auto simp: POST_def split: option.splits)

subsection \<open>Independence of the clock\<close>

lemma insort_key_map_commute:
  assumes "\<And>a. f (g a) = f a"
  shows "map g (insort_key f x ys) = insort_key f (g x) (map g ys)"
  by (induction ys) (simp_all add: assms)

lemma sort_key_map_commute:
  assumes "\<And>a. f (g a) = f a"
  shows "map g (sort_key f xs) = sort_key f (map g xs)"
proof (induction xs)
  case Nil
  then show ?case by simp
next
  case (Cons x xs)
  have "map g (insort_key f x (sort_key f xs)) = insort_key f (g x) (map g (sort_key f xs))"
    using assms by (rule insort_key_map_commute)
  with Cons show ?case by (simp add: sort_key_def [symmetric])
qed

lemma detectZScoreAnomaly_erased:
  "map_option (timestamp_update (\<lambda>_. 0)) (fst (detectZScoreAnomaly cp hp tk thr c1)) =
   map_option (timestamp_update (\<lambda>_. 0)) (fst (detectZScoreAnomaly cp hp tk thr c2))"
  by (simp add: detectZScoreAnomaly_def Let_def Date_now_def)

lemma detectVolumeSpikeAnomaly_erased:
  "map_option (timestamp_update (\<lambda>_. 0)) (fst (detectVolumeSpikeAnomaly cv hv tk thr c1)) =
   map_option (timestamp_update (\<lambda>_. 0)) (fst (detectVolumeSpikeAnomaly cv hv tk thr c2))"
  by (simp add: detectVolumeSpikeAnomaly_def Let_def Date_now_def)

lemma detectPriceDeviation_erased:
  "map_option (timestamp_update (\<lambda>_. 0)) (fst (detectPriceDeviation cp hp tk w thr c1)) =
   map_option (timestamp_update (\<lambda>_. 0)) (fst (detectPriceDeviation cp hp tk w thr c2))"
  by (simp add: detectPriceDeviation_def Let_def Date_now_def)

lemma detectLOFAnomaly_erased:
  "map_option (timestamp_update (\<lambda>_. 0)) (fst (detectLOFAnomaly cp cv hs tk thr c1)) =
   map_option (timestamp_update (\<lambda>_. 0)) (fst (detectLOFAnomaly cp cv hs tk thr c2))"
  by (simp add: detectLOFAnomaly_def Let_def Date_now_def)

lemma map_push_if: "map g (push_if r xs) = push_if (map_option g r) (map g xs)"
  by (cases r) (simp_all add: push_if_def)

lemma run_detectors_erased:
  "map (timestamp_update (\<lambda>_. 0)) (fst (run_detectors tk cur hist c)) =
   map (timestamp_update (\<lambda>_. 0)) (fst (run_detectors tk cur hist d))"
proof -
  obtain c1 c2 c3 where c: "fst (run_detectors tk cur hist c) =
     push_if (fst (detectLOFAnomaly (price cur) (volume cur) hist tk (Fin (3 / 2)) c3))
       (push_if (fst (detectPriceDeviation (price cur) (map price hist) tk 20 (Fin 5) c2))
          (push_if (fst (detectVolumeSpikeAnomaly (volume cur) (map volume hist) tk (Fin 3) c1))
             (push_if (fst (detectZScoreAnomaly (price cur) (map price hist) tk (Fin (5 / 2)) c))
                [])))"
    using run_detectors_expand by blast
  obtain d1 d2 d3 where d: "fst (run_detectors tk cur hist d) =
     push_if (fst (detectLOFAnomaly (price cur) (volume cur) hist tk (Fin (3 / 2)) d3))
       (push_if (fst (detectPriceDeviation (price cur) (map price hist) tk 20 (Fin 5) d2))
          (push_if (fst (detectVolumeSpikeAnomaly (volume cur) (map volume hist) tk (Fin 3) d1))
             (push_if (fst (detectZScoreAnomaly (price cur) (map price hist) tk (Fin (5 / 2)) d))
                [])))"
    using run_detectors_expand by blast
  show ?thesis
    unfolding c d map_push_if
    by (simp only: detectZScoreAnomaly_erased [of _ _ _ _ c d]
        detectVolumeSpikeAnomaly_erased [of _ _ _ _ c1 d1]
        detectPriceDeviation_erased [of _ _ _ _ _ c2 d2]
        detectLOFAnomaly_erased [of _ _ _ _ _ c3 d3])
qed

lemma erased_severity:
  "map (timestamp_update (\<lambda>_. 0)) xs = map (timestamp_update (\<lambda>_. 0)) ys \<Longrightarrow>
   map severity xs = map severity ys"
proof -
  assume "map (timestamp_update (\<lambda>_. 0)) xs = map (timestamp_update (\<lambda>_. 0)) ys"
  then have "map severity (map (timestamp_update (\<lambda>_. 0)) xs) =
      map severity (map (timestamp_update (\<lambda>_. 0)) ys)" by simp
  then show ?thesis by (simp add: comp_def)
qed

lemma erased_type:
  "map (timestamp_update (\<lambda>_. 0)) xs = map (timestamp_update (\<lambda>_. 0)) ys \<Longrightarrow>
   map type xs = map type ys"
proof -
  assume "map (timestamp_update (\<lambda>_. 0)) xs = map (timestamp_update (\<lambda>_. 0)) ys"
  then have "map type (map (timestamp_update (\<lambda>_. 0)) xs) =
      map type (map (timestamp_update (\<lambda>_. 0)) ys)" by simp
  then show ?thesis by (simp add: comp_def)
qed


subsection \<open>Sums without rounding\<close>

lemma foldl_fadd_exact:
  "(\<forall>k \<le> length qs. round64 (sum_list (take k qs)) = Fin (sum_list (take k qs))) \<Longrightarrow>
   foldl fadd (Fin 0) (map Fin qs) = Fin (sum_list qs)"
proof (induction qs rule: rev_induct)
  case Nil
  then show ?case by simp
next
  case (snoc q qs)
  have "\<forall>k \<le> length qs. round64 (sum_list (take k qs)) = Fin (sum_list (take k qs))"
  proof (intro allI impI)
    fix k assume k: "k \<le> length qs"
    then have "k \<le> length (qs @ [q])" by simp
    then have "round64 (sum_list (take k (qs @ [q]))) = Fin (sum_list (take k (qs @ [q])))"
      using snoc.prems by blast
    with k show "round64 (sum_list (take k qs)) = Fin (sum_list (take k qs))" by simp
  qed
  then have ih: "foldl fadd (Fin 0) (map Fin qs) = Fin (sum_list qs)" by (rule snoc.IH)
  have "round64 (sum_list (take (length (qs @ [q])) (qs @ [q]))) =
        Fin (sum_list (take (length (qs @ [q])) (qs @ [q])))"
    using snoc.prems by blast
  then have "round64 (sum_list qs + q) = Fin (sum_list qs + q)" by simp
  with ih show ?case by simp
qed

subsection \<open>Absent values and degenerate series\<close>

lemma example_without_price_zscore:
  "detectZScoreAnomaly Undefined (map price example_history) ''BTC'' (Fin (5 / 2)) clk = (None, clk)"
  unfolding detectZScoreAnomaly_def example_mean_prices example_std_prices Let_def
  by (simp add: example_length number_eval)

lemma replicate_ten: "replicate 10 x = [x, x, x, x, x, x, x, x, x, x]"
  by (simp add: replicate_numeral)

lemma zero_volumes: "mean (map ToNumber (replicate 10 (Num (Fin 0)))) = Fin 0"
  unfolding replicate_ten list.map
  by (simp add: mean_def number_eval)

lemma tenth: "round64 (1 / 10) = Fin (3602879701896397 / 36028797018963968)"
  by (simp add: number_eval)

lemma fifth: "round64 (1 / 5) = Fin (3602879701896397 / 18014398509481984)"
  by (simp add: number_eval)

lemma tenth_mean:
  "mean (replicate 10 (Fin (3602879701896397 / 36028797018963968))) =
   Fin (7205759403792793 / 72057594037927936)"
  unfolding replicate_ten
  by (simp add: mean_def number_eval)

lemma tenth_square_diff:
  "Math_pow_2 (fsub (Fin (3602879701896397 / 36028797018963968))
     (Fin (7205759403792793 / 72057594037927936))) =
   Fin (1 / 5192296858534827628530496329220096)"
  by (simp add: number_eval)

lemma tenth_std:
  "standardDeviation (replicate 10 (Fin (3602879701896397 / 36028797018963968))) =
   Fin (1 / 72057594037927936)"
  unfolding standardDeviation_def Let_def tenth_mean
  unfolding replicate_ten list.map tenth_square_diff
  by (simp add: mean_def number_eval)


subsection \<open>The LOF detector on a constant history\<close>

lemma fsub_self: "fsub (Fin p) (Fin p) = Fin 0"
  by (simp add: fsub_def round64_def)

lemma fold_min_const:
  "fold (\<lambda>x lo. if (x = NegZero \<and> lo = Fin 0) \<or> fless x lo then x else lo)
     (replicate n (Fin p)) (Fin p) = Fin p"
  by (induction n) (simp_all del: fold_replicate)

lemma Math_min_replicate: "0 < n \<Longrightarrow> Math_min (replicate n (Fin p)) = Fin p"
  by (cases n) (simp_all add: Math_min_def fold_min_const del: fold_replicate)

lemma fold_max_const:
  "fold (\<lambda>x hi. if (x = Fin 0 \<and> hi = NegZero) \<or> fless hi x then x else hi)
     (replicate n (Fin p)) (Fin p) = Fin p"
  by (induction n) (simp_all del: fold_replicate)

lemma Math_max_replicate: "0 < n \<Longrightarrow> Math_max (replicate n (Fin p)) = Fin p"
  by (cases n) (simp_all add: Math_max_def fold_max_const del: fold_replicate)

lemma insert_by_replicate: "insert_by cmp x (replicate n x) = replicate (Suc n) x"
  by (induction n) simp_all

lemma Array_sort_replicate: "Array_sort cmp (replicate n x) = replicate n x"
  by (induction n) (simp_all add: Array_sort_def insert_by_replicate)

lemma without_index_replicate: "i < n \<Longrightarrow> without_index i (replicate n x) = replicate (n - 1) x"
  by (simp add: without_index_def replicate_add [symmetric])

lemma foldl_fadd_zero: "foldl fadd (Fin 0) (replicate n (Fin 0)) = Fin 0"
  by (induction n) (simp_all add: round64_def)

lemma mean_zero: "0 < n \<Longrightarrow> mean (replicate n (Fin 0)) = Fin 0"
  by (simp add: mean_def foldl_fadd_zero fdiv_def num_of_nat_def is_zero_def is_inf_def
      signed_zero_def)

lemma distance_origin: "distance (Fin 0, Fin 0) (Fin 0, Fin 0) = Fin 0"
  by (simp add: distance_def fsub_def Math_pow_2_def fmul_def is_zero_def is_inf_def
      signed_zero_def round64_def)

lemma fdiv_zero_one: "fdiv (Fin 0) (Fin 1) = Fin 0"
  by (simp add: fdiv_def is_zero_def is_inf_def signed_zero_def)

lemma map_upt_const: "map (\<lambda>i. c) [0..<n] = replicate n c"
  by (induction n) (simp_all add: replicate_append_same)

lemma lof_historical_constant:
  assumes "20 \<le> n"
  shows "map (\<lambda>i. mean (take 5 (Array_sort fsub
            (map (\<lambda>h. distance (replicate n (Fin 0, Fin 0) ! i) h)
               (without_index i (replicate n (Fin 0, Fin 0)))))))
          [0..<n] = replicate n (Fin 0)"
proof -
  have "mean (take 5 (Array_sort fsub
            (map (\<lambda>h. distance (replicate n (Fin 0, Fin 0) ! i) h)
               (without_index i (replicate n (Fin 0, Fin 0)))))) = Fin 0"
    if "i \<in> set [0..<n]" for i
  proof -
    from that have i: "i < n" by simp
    have "take 5 (replicate (n - 1) (Fin 0)) = replicate 5 (Fin 0)"
      using assms by (simp add: min_def)
    then show ?thesis
      using i by (simp add: without_index_replicate distance_origin Array_sort_replicate mean_zero)
  qed
  then have "map (\<lambda>i. mean (take 5 (Array_sort fsub
            (map (\<lambda>h. distance (replicate n (Fin 0, Fin 0) ! i) h)
               (without_index i (replicate n (Fin 0, Fin 0)))))))
          [0..<n] = map (\<lambda>i. Fin 0) [0..<n]"
    by (intro map_cong refl)
  then show ?thesis by (simp add: map_upt_const)
qed

lemma detectLOFAnomaly_constant:
  assumes "20 \<le> n"
  shows "detectLOFAnomaly cp cv (replicate n \<lparr>price = Num (Fin p), volume = Num (Fin v)\<rparr>) tk thr clk =
    (if fgt (lof_constant_score cp cv p v) thr then
       (Some \<lparr>type = ''lof'',
          severity = (if fgt (lof_constant_score cp cv p v) (Fin 3) then Critical
                      else if fgt (lof_constant_score cp cv p v) (Fin 2) then High
                      else if fgt (lof_constant_score cp cv p v) (Fin (3 / 2)) then Medium else Low),
          score = lof_constant_score cp cv p v, threshold = thr,
          message = [Lit ''Local Outlier Factor '', ToFixed (lof_constant_score cp cv p v) 2,
                     Lit '' - Multi-dimensional anomaly detected''],
          timestamp = clk 0, ticker = tk,
          details = [(''lofScore'', DVal (Num (lof_constant_score cp cv p v))),
                     (''avgKDistance'', DVal (Num (mean (replicate 5
                        (distance (fdiv (fsub (ToNumber cp) (Fin p)) (Fin 1),
                                   fdiv (fsub (ToNumber cv) (Fin v)) (Fin 1)) (Fin 0, Fin 0)))))),
                     (''avgHistoricalKDistance'', DVal (Num (Fin 0))),
                     (''interpretation'',
                       DText [Lit ''Point is significantly different from local neighborhood''])]\<rparr>,
        \<lambda>n. clk (Suc n))
     else (None, clk))"
proof -
  have n: "0 < n" "\<not> n < 20" "min n 5 = 5" "min 5 n = 5" using assms by auto
  have k: "min 5 (n - 1) = 5" using assms by auto
  have t: "take 5 (replicate n x) = replicate 5 x" for x :: number
    using assms by (simp add: min_def)
  show ?thesis
    unfolding detectLOFAnomaly_def Let_def length_replicate length_map k
    by (simp add: n t comp_def Math_min_replicate Math_max_replicate fsub_self or_else_def
        is_zero_def fdiv_zero_one Array_sort_replicate lof_historical_constant [OF assms]
        mean_zero lof_constant_score_def Date_now_def)
qed
text \<open>The guard \<open>std === 0\<close> of the z-score detector does fire on a constant series whose
  computed mean is the constant itself: every difference is then \<open>+0\<close>.\<close>

lemma standardDeviation_constant_exact:
  assumes "0 < n" "mean (replicate n (Fin p)) = Fin p"
  shows "standardDeviation (replicate n (Fin p)) = Fin 0"
proof -
  have "Math_pow_2 (fsub (Fin p) (Fin p)) = Fin 0"
    by (simp add: fsub_self Math_pow_2_def fmul_def is_zero_def is_inf_def signed_zero_def)
  then show ?thesis
    using assms by (simp add: standardDeviation_def mean_zero)
qed

lemma detectZScoreAnomaly_constant_exact:
  assumes "10 \<le> n" "mean (replicate n (Fin p)) = Fin p"
  shows "detectZScoreAnomaly cp (replicate n (Num (Fin p))) tk thr clk = (None, clk)"
proof -
  have "0 < n" using assms(1) by simp
  then have "standardDeviation (replicate n (Fin p)) = Fin 0"
    using assms(2) by (rule standardDeviation_constant_exact)
  then show ?thesis
    by (simp add: detectZScoreAnomaly_def strict_eq_def)
qed

subsection \<open>Powers of two and the binary logarithm\<close>

text \<open>\<open>ilog2\<close> is the floor of the binary logarithm: \<open>2^(ilog2 a) \<le> a < 2^(ilog2 a + 1)\<close>.\<close>

lemma pow2_powi: "pow2 e = 2 powi e"
  by (simp add: pow2_def power_int_def power_inverse [symmetric] inverse_eq_divide power_one_over)

lemma pow2_pos: "0 < pow2 e"
  by (simp add: pow2_powi)

lemma pow2_add: "pow2 (a + b) = pow2 a * pow2 b"
  by (simp add: pow2_powi power_int_add)

lemma pow2_mono: "a \<le> b \<Longrightarrow> pow2 a \<le> pow2 b"
  by (simp add: pow2_powi power_int_increasing)

lemma pow2_strict_mono: "a < b \<Longrightarrow> pow2 a < pow2 b"
  by (simp add: pow2_powi power_int_strict_increasing)

lemma pow2_nat: "pow2 (int k) = 2 ^ k"
  by (simp add: pow2_def)

lemma pow2_less_imp_less: "pow2 a < pow2 b \<Longrightarrow> a < b"
  using pow2_mono [of b a] by (cases "a < b") auto

lemma bit_length_upper: "n < 2 ^ bit_length n"
proof (induction n rule: bit_length.induct)
  case (1 n)
  show ?case
  proof (cases "n = 0")
    case True
    then show ?thesis by (simp add: bit_length.simps)
  next
    case False
    with 1 have "n div 2 < 2 ^ bit_length (n div 2)" by simp
    then have "n < 2 * 2 ^ bit_length (n div 2)" by linarith
    with False show ?thesis by (subst bit_length.simps) simp
  qed
qed

lemma bit_length_lower: "0 < n \<Longrightarrow> 2 ^ (bit_length n - 1) \<le> n"
proof (induction n rule: bit_length.induct)
  case (1 n)
  then have n: "n \<noteq> 0" by simp
  have b: "bit_length n = Suc (bit_length (n div 2))"
    using n by (subst bit_length.simps) simp
  show ?case
  proof (cases "n div 2 = 0")
    case True
    then show ?thesis using 1 b by (simp add: bit_length.simps)
  next
    case False
    with 1 n have "2 ^ (bit_length (n div 2) - 1) \<le> n div 2" by simp
    moreover have "0 < bit_length (n div 2)"
      using False by (subst bit_length.simps) simp
    ultimately have "2 ^ bit_length (n div 2) \<le> 2 * (n div 2)"
      by (cases "bit_length (n div 2)") simp_all
    then show ?thesis using b by simp
  qed
qed

lemma bit_length_pos: "0 < n \<Longrightarrow> 0 < bit_length n"
  by (subst bit_length.simps) simp

lemma pow2_neg_nat: "pow2 (- int k) = 1 / 2 ^ k"
  by (simp add: pow2_powi power_int_minus_divide)

lemma ilog2_lower: assumes "0 < a" shows "pow2 (ilog2 a) \<le> a"
proof (cases "1 \<le> a")
  case True
  define N where "N = nat \<lfloor>a\<rfloor>"
  have N: "0 < N" "of_nat N \<le> a" using True by (simp_all add: N_def le_floor_iff)
  have "2 ^ (bit_length N - 1) \<le> N" using N(1) by (rule bit_length_lower)
  then have A: "(2::rat) ^ (bit_length N - 1) \<le> of_nat N"
    by (metis of_nat_le_iff of_nat_numeral of_nat_power)
  have "ilog2 a = int (bit_length N - 1)"
    using True bit_length_pos [OF N(1)] by (simp add: ilog2_def N_def)
  then have "pow2 (ilog2 a) = 2 ^ (bit_length N - 1)" by (simp only: pow2_nat)
  also have "\<dots> \<le> of_nat N" by (rule A)
  also have "\<dots> \<le> a" by (rule N(2))
  finally show ?thesis .
next
  case False
  define C where "C = \<lceil>1 / a\<rceil>"
  define M where "M = nat (C - 1)"
  from False assms have "1 < 1 / a" by (simp add: field_simps)
  then have c: "2 \<le> C" unfolding C_def by linarith
  have "1 / a \<le> of_int C" unfolding C_def by simp
  also have "of_int C = (of_nat M + 1 :: rat)" using c by (simp add: M_def)
  also have "(of_nat M + 1 :: rat) \<le> 2 ^ bit_length M"
  proof -
    have "M + 1 \<le> 2 ^ bit_length M" using bit_length_upper [of M] by simp
    then have "(of_nat (M + 1) :: rat) \<le> of_nat (2 ^ bit_length M)"
      by (simp only: of_nat_le_iff)
    then show ?thesis by simp
  qed
  finally have "1 / a \<le> 2 ^ bit_length M" .
  then have "1 / 2 ^ bit_length M \<le> a"
    using assms by (simp add: field_simps)
  moreover have "ilog2 a = - int (bit_length M)"
    using False by (simp add: ilog2_def M_def C_def)
  ultimately show ?thesis
    by (simp only: pow2_neg_nat)
qed

lemma ilog2_upper: assumes "0 < a" shows "a < pow2 (ilog2 a + 1)"
proof (cases "1 \<le> a")
  case True
  define F where "F = \<lfloor>a\<rfloor>"
  define N where "N = nat F"
  have F: "1 \<le> F" using True by (simp add: F_def le_floor_iff)
  then have N: "0 < N" by (simp add: N_def)
  have "a < of_int F + 1" unfolding F_def by linarith
  also have "of_int F + 1 = (of_nat (N + 1) :: rat)" using F by (simp add: N_def)
  also have "(of_nat (N + 1) :: rat) \<le> of_nat (2 ^ bit_length N)"
    using bit_length_upper [of N] by (simp only: of_nat_le_iff)
  finally have "a < 2 ^ bit_length N" by simp
  moreover have "ilog2 a + 1 = int (bit_length N)"
    using True by (simp add: ilog2_def N_def F_def)
  ultimately show ?thesis by (simp add: pow2_nat)
next
  case False
  define C where "C = \<lceil>1 / a\<rceil>"
  define M where "M = nat (C - 1)"
  from False assms have "1 < 1 / a" by (simp add: field_simps)
  then have c: "2 \<le> C" unfolding C_def by linarith
  then have M: "0 < M" by (simp add: M_def)
  have "(2::rat) ^ (bit_length M - 1) \<le> of_nat M"
    using bit_length_lower [OF M] by (metis of_nat_le_iff of_nat_numeral of_nat_power)
  also have "(of_nat M :: rat) = of_int C - 1" using c by (simp add: M_def)
  also have "\<dots> < 1 / a" unfolding C_def by linarith
  finally have "(2::rat) ^ (bit_length M - 1) < 1 / a" .
  then have "a < 1 / 2 ^ (bit_length M - 1)"
    using assms by (simp add: field_simps)
  moreover have "ilog2 a + 1 = - int (bit_length M - 1)"
    using False bit_length_pos [OF M] by (simp add: ilog2_def M_def C_def)
  ultimately show ?thesis
    by (simp only: pow2_neg_nat)
qed

lemma ilog2_le: assumes "0 < a" "a \<le> pow2 k" shows "ilog2 a \<le> k"
proof -
  have "pow2 (ilog2 a) \<le> pow2 k" using ilog2_lower [OF assms(1)] assms(2) by simp
  then show ?thesis using pow2_strict_mono [of k "ilog2 a"] by (cases "ilog2 a \<le> k") auto
qed

lemma ilog2_ge: assumes "0 < a" "pow2 k \<le> a" shows "k \<le> ilog2 a"
proof -
  have "pow2 k < pow2 (ilog2 a + 1)" using ilog2_upper [OF assms(1)] assms(2) by simp
  then have "k < ilog2 a + 1" by (rule pow2_less_imp_less)
  then show ?thesis by simp
qed

subsection \<open>Bounds on rounding\<close>

text \<open>Rounding keeps a value between the representable bounds around it: a value of
  magnitude at most \<open>2^k\<close>, \<open>k \<le> 1023\<close>, rounds to a finite number of magnitude at most
  \<open>2^k\<close>, and a value of magnitude at least \<open>2^1024\<close> rounds to an infinity.\<close>

lemma round_half_even_le: "q \<le> of_int N \<Longrightarrow> round_half_even q \<le> N"
proof -
  assume a: "q \<le> of_int N"
  then have f: "\<lfloor>q\<rfloor> \<le> N" by (simp add: floor_le_iff)
  show ?thesis
  proof (cases "\<lfloor>q\<rfloor> = N")
    case True
    then have "q = of_int N" using a by (metis of_int_floor_le order_antisym)
    then show ?thesis by (simp add: round_half_even_def)
  next
    case False
    with f have "\<lfloor>q\<rfloor> + 1 \<le> N" by simp
    then show ?thesis using f by (simp add: round_half_even_def Let_def)
  qed
qed

lemma round_half_even_ge: "of_int N \<le> q \<Longrightarrow> N \<le> round_half_even q"
proof -
  assume "of_int N \<le> q"
  then have "N \<le> \<lfloor>q\<rfloor>" by (simp add: le_floor_iff)
  then show ?thesis by (simp add: round_half_even_def Let_def)
qed
lemma pow2_diff: "pow2 (a - b) = pow2 a / pow2 b"
  by (simp add: pow2_powi power_int_diff)

lemma round64_magnitude_le:
  fixes a :: rat and k :: nat
  assumes a: "0 < a" "a \<le> 2 ^ k"
  defines "e \<equiv> max (ilog2 a) (- 1022) - 52"
  shows "0 \<le> round_half_even (a / pow2 e)"
    and "of_int (round_half_even (a / pow2 e)) * pow2 e \<le> 2 ^ k"
proof -
  have "a \<le> pow2 (int k)" using a by (simp add: pow2_nat)
  then have "ilog2 a \<le> int k" using a(1) by (intro ilog2_le)
  then have ek: "e \<le> int k" by (simp add: e_def)
  define j where "j = nat (int k - e)"
  have j: "int j = int k - e" using ek by (simp add: j_def)
  have "a / pow2 e \<le> 2 ^ k / pow2 e"
    using a pow2_pos [of e] by (simp add: divide_right_mono)
  also have "2 ^ k / pow2 e = pow2 (int k - e)" by (simp add: pow2_diff pow2_nat)
  also have "\<dots> = 2 ^ j" by (simp only: j [symmetric] pow2_nat)
  finally have "a / pow2 e \<le> of_int (2 ^ j)" by simp
  then have m: "round_half_even (a / pow2 e) \<le> 2 ^ j" by (rule round_half_even_le)
  have "of_int 0 \<le> a / pow2 e" using a pow2_pos [of e] by simp
  then show "0 \<le> round_half_even (a / pow2 e)" by (rule round_half_even_ge)
  have "of_int (round_half_even (a / pow2 e)) * pow2 e \<le> of_int (2 ^ j) * pow2 e"
    using m pow2_pos [of e] by (intro mult_right_mono) simp_all
  also have "of_int (2 ^ j) * pow2 e = pow2 (int j) * pow2 e" by (simp add: pow2_nat)
  also have "\<dots> = pow2 (int k)" by (simp only: pow2_add [symmetric] j) simp
  finally show "of_int (round_half_even (a / pow2 e)) * pow2 e \<le> 2 ^ k"
    by (simp add: pow2_nat)
qed

lemma round64_magnitude_ge:
  fixes a :: rat
  assumes a: "2 ^ 1024 \<le> a"
  defines "e \<equiv> max (ilog2 a) (- 1022) - 52"
  shows "2 ^ 1024 \<le> of_int (round_half_even (a / pow2 e)) * pow2 e"
proof -
  have pos: "0 < a" using a by (rule less_le_trans [rotated]) simp
  have "pow2 1024 \<le> a" using a by (simp add: pow2_def)
  then have l: "1024 \<le> ilog2 a" using pos by (intro ilog2_ge)
  then have e: "e = ilog2 a - 52" by (simp add: e_def)
  have "pow2 52 = pow2 (ilog2 a) / pow2 e" by (simp add: e pow2_diff [symmetric])
  also have "\<dots> \<le> a / pow2 e"
    using ilog2_lower [OF pos] pow2_pos [of e] by (simp add: divide_right_mono)
  finally have "of_int (2 ^ 52) \<le> a / pow2 e" by (simp add: pow2_def)
  then have m: "2 ^ 52 \<le> round_half_even (a / pow2 e)" by (rule round_half_even_ge)
  have "(2::rat) ^ 1024 = pow2 1024" by (simp add: pow2_def)
  also have "\<dots> \<le> pow2 (ilog2 a)" using l by (rule pow2_mono)
  also have "pow2 (ilog2 a) = pow2 52 * pow2 e" by (simp add: e pow2_add [symmetric])
  also have "\<dots> = of_int (2 ^ 52) * pow2 e" by (simp add: pow2_def)
  also have "\<dots> \<le> of_int (round_half_even (a / pow2 e)) * pow2 e"
    using m pow2_pos [of e] by (intro mult_right_mono) simp_all
  finally show ?thesis .
qed

lemma round64_overflow:
  assumes "2 ^ 1024 \<le> \<bar>q\<bar>"
  shows "round64 q = (if q < 0 then NegInf else PosInf)"
proof -
  have "q \<noteq> 0" using assms by auto
  then show ?thesis
    using round64_magnitude_ge [OF assms]
    by (simp add: round64_def Let_def)
qed

lemma round64_nonneg_within:
  fixes k :: nat
  assumes "0 \<le> q" "q \<le> 2 ^ k" "k \<le> 1023"
  shows "nonneg_within (2 ^ k) (round64 q)"
proof (cases "q = 0")
  case True
  then show ?thesis by (simp add: round64_def nonneg_within_def)
next
  case False
  then have q: "0 < q" "\<bar>q\<bar> = q" using assms by simp_all
  define e where "e = max (ilog2 q) (- 1022) - 52"
  define m where "m = round_half_even (q / pow2 e)"
  have m: "0 \<le> m" "of_int m * pow2 e \<le> 2 ^ k"
    using round64_magnitude_le [OF q(1) assms(2)] by (simp_all add: m_def e_def)
  have "(2::rat) ^ k \<le> 2 ^ 1023" using assms(3) by (intro power_increasing) simp_all
  also have "\<dots> < (2::rat) ^ 1024" by simp
  finally have b: "\<not> 2 ^ 1024 \<le> of_int m * pow2 e" using m(2) by simp
  have p: "0 \<le> of_int m * pow2 e" using m(1) pow2_pos [of e] by simp
  have "round64 q = (if m = 0 then Fin 0 else Fin (of_int m * pow2 e))"
    using False q b by (simp add: round64_def Let_def m_def e_def)
  then show ?thesis using m p by (auto simp: nonneg_within_def)
qed

lemma round64_within:
  fixes k :: nat
  assumes "\<bar>q\<bar> \<le> 2 ^ k" "k \<le> 1023"
  shows "finite_within (2 ^ k) (round64 q)"
proof (cases "q = 0")
  case True
  then show ?thesis by (simp add: round64_def finite_within_def)
next
  case False
  then have q: "0 < \<bar>q\<bar>" by simp
  define e where "e = max (ilog2 \<bar>q\<bar>) (- 1022) - 52"
  define m where "m = round_half_even (\<bar>q\<bar> / pow2 e)"
  have m: "0 \<le> m" "of_int m * pow2 e \<le> 2 ^ k"
    using round64_magnitude_le [OF q assms(1)] by (simp_all add: m_def e_def)
  have "(2::rat) ^ k \<le> 2 ^ 1023" using assms(2) by (intro power_increasing) simp_all
  also have "\<dots> < (2::rat) ^ 1024" by simp
  finally have b: "\<not> 2 ^ 1024 \<le> of_int m * pow2 e" using m(2) by simp
  have p: "0 \<le> of_int m * pow2 e" using m(1) pow2_pos [of e] by simp
  have "round64 q = (if m = 0 then (if q < 0 then NegZero else Fin 0)
                     else Fin (if q < 0 then - (of_int m * pow2 e) else of_int m * pow2 e))"
    using False b by (simp add: round64_def Let_def m_def e_def)
  then show ?thesis using m p by (auto simp: finite_within_def)
qed
subsection \<open>Bounds on the square root\<close>

text \<open>\<open>isqrt\<close> is the integer square root.\<close>

lemma isqrt_square_le: "isqrt n * isqrt n \<le> n"
proof (induction n rule: isqrt.induct)
  case (1 n)
  show ?case
  proof (cases "n < 2")
    case True
    then have "n = 0 \<or> n = 1" by auto
    then show ?thesis by auto
  next
    case False
    define r where "r = 2 * isqrt (n div 4)"
    have "isqrt (n div 4) * isqrt (n div 4) \<le> n div 4" using 1 False by simp
    then have "r * r \<le> 4 * (n div 4)" by (simp add: r_def)
    then have r: "r * r \<le> n" by linarith
    have "isqrt n = (if (r + 1) * (r + 1) \<le> n then r + 1 else r)"
      using False by (subst isqrt.simps) (simp add: r_def Let_def)
    then show ?thesis using r by (cases "(r + 1) * (r + 1) \<le> n") simp_all
  qed
qed

lemma isqrt_upper: "n < (isqrt n + 1) * (isqrt n + 1)"
proof (induction n rule: isqrt.induct)
  case (1 n)
  show ?case
  proof (cases "n < 2")
    case True
    then have "n = 0 \<or> n = 1" by auto
    then show ?thesis by auto
  next
    case False
    define s where "s = isqrt (n div 4)"
    have "n div 4 < (s + 1) * (s + 1)" using 1 False by (simp add: s_def)
    then have "n div 4 + 1 \<le> (s + 1) * (s + 1)" by simp
    then have "4 * (n div 4 + 1) \<le> 4 * ((s + 1) * (s + 1))" by simp
    moreover have "n < 4 * (n div 4 + 1)" by presburger
    ultimately have u: "n < (2 * s + 2) * (2 * s + 2)" by (simp add: algebra_simps)
    have "isqrt n = (if (2 * s + 1) * (2 * s + 1) \<le> n then 2 * s + 1 else 2 * s)"
      using False by (subst isqrt.simps) (simp add: s_def Let_def)
    then show ?thesis using u by (cases "(2 * s + 1) * (2 * s + 1) \<le> n") simp_all
  qed
qed

lemma nonneg_within_mono: "nonneg_within B x \<Longrightarrow> B \<le> C \<Longrightarrow> nonneg_within C x"
  by (auto simp: nonneg_within_def)

lemma square_le_imp_le:
  fixes x :: rat
  assumes "x * x \<le> B * B" "0 \<le> B"
  shows "x \<le> B"
proof (rule ccontr)
  assume "\<not> x \<le> B"
  then have "B < x" by simp
  then have "B * B < x * x" using assms(2) by (intro mult_strict_mono') simp_all
  with assms(1) show False by simp
qed

lemma round_sqrt_nonneg_within:
  assumes a: "0 < a" "a \<le> B * B" and B: "0 \<le> B"
  shows "nonneg_within (2 * B) (round_sqrt a)"
proof -
  define e where "e = ilog2 a div 2 - 52"
  define t where "t = a / pow2 (2 * e)"
  define k where "k = int (isqrt (nat \<lfloor>t\<rfloor>))"
  define c :: rat where "c = (of_int k + 1 / 2) * (of_int k + 1 / 2)"
  define m where "m = (if t < c then k else if c < t then k + 1 else if even k then k else k + 1)"
  have rs: "round_sqrt a = Fin (of_int m * pow2 e)"
    by (simp add: round_sqrt_def Let_def e_def t_def k_def c_def m_def)
  have pe: "0 < pow2 e" by (rule pow2_pos)
  have p2: "pow2 (2 * e) = pow2 e * pow2 e"
    using pow2_add [of e e] by simp
  have tpos: "0 \<le> t" using a(1) pow2_pos [of "2 * e"] by (simp add: t_def)
  then have fl: "0 \<le> \<lfloor>t\<rfloor>" by simp
  have k0: "0 \<le> k" by (simp add: k_def)
  have "isqrt (nat \<lfloor>t\<rfloor>) * isqrt (nat \<lfloor>t\<rfloor>) \<le> nat \<lfloor>t\<rfloor>" by (rule isqrt_square_le)
  then have "int (isqrt (nat \<lfloor>t\<rfloor>) * isqrt (nat \<lfloor>t\<rfloor>)) \<le> int (nat \<lfloor>t\<rfloor>)"
    by (simp only: of_nat_le_iff)
  then have "k * k \<le> \<lfloor>t\<rfloor>" using fl by (simp add: k_def)
  then have "(of_int (k * k) :: rat) \<le> of_int \<lfloor>t\<rfloor>" by (simp only: of_int_le_iff)
  also have "\<dots> \<le> t" by simp
  finally have kk: "(of_int k :: rat) * of_int k \<le> t" by simp
  have "(of_int k * pow2 e) * (of_int k * pow2 e) = (of_int k * of_int k) * pow2 (2 * e)"
    by (simp add: p2)
  also have "\<dots> \<le> t * pow2 (2 * e)"
    using kk pow2_pos [of "2 * e"] by (intro mult_right_mono) simp_all
  also have "\<dots> = a" using pow2_pos [of "2 * e"] by (simp add: t_def)
  finally have "(of_int k * pow2 e) * (of_int k * pow2 e) \<le> B * B" using a(2) by simp
  then have kb: "of_int k * pow2 e \<le> B" using B by (rule square_le_imp_le)
  have "2 * e \<le> ilog2 a" by (simp add: e_def)
  then have "pow2 (2 * e) \<le> pow2 (ilog2 a)" by (rule pow2_mono)
  also have "\<dots> \<le> a" using a(1) by (rule ilog2_lower)
  finally have "pow2 e * pow2 e \<le> B * B" using a(2) by (simp add: p2)
  then have eb: "pow2 e \<le> B" using B by (rule square_le_imp_le)
  have mk: "0 \<le> m" "m \<le> k + 1" using k0 by (simp_all add: m_def)
  have "of_int m * pow2 e \<le> of_int (k + 1) * pow2 e"
    using mk(2) pe by (intro mult_right_mono) simp_all
  also have "\<dots> = of_int k * pow2 e + pow2 e" by (simp add: algebra_simps)
  also have "\<dots> \<le> 2 * B" using kb eb by simp
  finally have "of_int m * pow2 e \<le> 2 * B" .
  moreover have "0 \<le> of_int m * pow2 e" using mk(1) pe by simp
  ultimately show ?thesis by (simp add: rs nonneg_within_def)
qed

lemma Math_sqrt_nonneg_within:
  assumes "nonneg_within (B * B) x" "0 \<le> B"
  shows "nonneg_within (2 * B) (Math_sqrt x)"
proof -
  from assms(1) obtain r where r: "x = Fin r" "0 \<le> r" "r \<le> B * B"
    by (auto simp: nonneg_within_def)
  show ?thesis
  proof (cases "r = 0")
    case True
    then show ?thesis using r assms(2) by (simp add: nonneg_within_def)
  next
    case False
    then have "0 < r" using r by simp
    then show ?thesis using r assms(2) by (simp add: round_sqrt_nonneg_within)
  qed
qed

subsection \<open>Bounds through the operations\<close>

lemma fsub_within:
  fixes k :: nat
  assumes "\<bar>a - p\<bar> \<le> 2 ^ k" "k \<le> 1023"
  shows "finite_within (2 ^ k) (fsub (Fin a) (Fin p))"
proof (cases "p = 0")
  case True
  then show ?thesis using assms by (simp add: fsub_def finite_within_def)
next
  case False
  then show ?thesis using round64_within [of "a + - p" k] assms by (simp add: fsub_def)
qed

lemma fdiv_one_within:
  fixes k :: nat
  assumes "finite_within (2 ^ k) x" "k \<le> 1023"
  shows "finite_within (2 ^ k) (fdiv x (Fin 1))"
proof -
  from assms(1) consider "x = NegZero" | "x = Fin 0" | r where "x = Fin r" "r \<noteq> 0" "\<bar>r\<bar> \<le> 2 ^ k"
    by (auto simp: finite_within_def)
  then show ?thesis
  proof cases
    case 1
    then show ?thesis
      by (simp add: fdiv_def is_zero_def is_inf_def signed_zero_def finite_within_def)
  next
    case 2
    then show ?thesis
      by (simp add: fdiv_def is_zero_def is_inf_def signed_zero_def finite_within_def)
  next
    case 3
    then show ?thesis using round64_within [of r k] assms(2)
      by (simp add: fdiv_def is_zero_def is_inf_def)
  qed
qed

lemma fsub_zero_right: "finite_within B x \<Longrightarrow> fsub x (Fin 0) = x"
  by (auto simp: finite_within_def fsub_def)

lemma Math_pow_2_within:
  fixes k :: nat
  assumes "finite_within (2 ^ k) x" "2 * k \<le> 1023"
  shows "nonneg_within (2 ^ (2 * k)) (Math_pow_2 x)"
proof -
  from assms(1) consider "x = NegZero" | "x = Fin 0" | r where "x = Fin r" "r \<noteq> 0" "\<bar>r\<bar> \<le> 2 ^ k"
    by (auto simp: finite_within_def)
  then show ?thesis
  proof cases
    case 1
    then show ?thesis
      by (simp add: Math_pow_2_def fmul_def is_zero_def is_inf_def signed_zero_def nonneg_within_def)
  next
    case 2
    then show ?thesis
      by (simp add: Math_pow_2_def fmul_def is_zero_def is_inf_def signed_zero_def nonneg_within_def)
  next
    case 3
    have "r * r = \<bar>r\<bar> * \<bar>r\<bar>" by simp
    also have "\<dots> \<le> 2 ^ k * 2 ^ k" using 3(3) by (intro mult_mono) simp_all
    also have "\<dots> = (2::rat) ^ (2 * k)" by (simp add: power_add [symmetric] mult_2)
    finally have "r * r \<le> 2 ^ (2 * k)" .
    then have "nonneg_within (2 ^ (2 * k)) (round64 (r * r))"
      using assms(2) by (intro round64_nonneg_within) simp_all
    then show ?thesis using 3 by (simp add: Math_pow_2_def fmul_def is_zero_def is_inf_def)
  qed
qed

lemma fadd_nonneg_within:
  fixes k :: nat
  assumes "nonneg_within (2 ^ k) x" "nonneg_within (2 ^ k) y" "k + 1 \<le> 1023"
  shows "nonneg_within (2 ^ (k + 1)) (fadd x y)"
proof -
  from assms obtain r s where r: "x = Fin r" "0 \<le> r" "r \<le> 2 ^ k"
    and s: "y = Fin s" "0 \<le> s" "s \<le> 2 ^ k"
    by (auto simp: nonneg_within_def)
  have "r + s \<le> 2 ^ (k + 1)" using r s by simp
  then have "nonneg_within (2 ^ (k + 1)) (round64 (r + s))"
    using r s assms(3) by (intro round64_nonneg_within) simp_all
  then show ?thesis using r s by simp
qed

lemma fadd_nonneg_within':
  fixes k :: nat
  assumes "nonneg_within (2 ^ k) x" "nonneg_within (2 ^ j) y" "j \<le> k" "k + 1 \<le> 1023"
  shows "nonneg_within (2 ^ (k + 1)) (fadd x y)"
proof -
  have "(2::rat) ^ j \<le> 2 ^ k" using assms(3) by (intro power_increasing) simp_all
  then have "nonneg_within (2 ^ k) y" using assms(2) by (rule nonneg_within_mono [rotated])
  then show ?thesis using assms(1,4) by (intro fadd_nonneg_within)
qed

lemma fdiv_nonneg_within:
  fixes k :: nat
  assumes "nonneg_within (2 ^ k) x" "1 \<le> d" "k \<le> 1023"
  shows "nonneg_within (2 ^ k) (fdiv x (Fin d))"
proof -
  from assms obtain r where r: "x = Fin r" "0 \<le> r" "r \<le> 2 ^ k"
    by (auto simp: nonneg_within_def)
  have d: "0 < d" using assms(2) by simp
  show ?thesis
  proof (cases "r = 0")
    case True
    then show ?thesis using r d
      by (simp add: fdiv_def is_zero_def is_inf_def signed_zero_def nonneg_within_def)
  next
    case False
    have "1 * r \<le> d * r" using r(2) assms(2) by (intro mult_right_mono)
    then have "r / d \<le> r" using d by (simp add: field_simps)
    then have "r / d \<le> 2 ^ k" using r(3) by simp
    moreover have "0 \<le> r / d" using r(2) d by simp
    ultimately have "nonneg_within (2 ^ k) (round64 (r / d))"
      using assms(3) by (intro round64_nonneg_within)
    then show ?thesis using False r d by (simp add: fdiv_def is_zero_def is_inf_def)
  qed
qed

lemma mean_five_nonneg_within:
  fixes k :: nat
  assumes x: "nonneg_within (2 ^ k) x" and k: "k + 5 \<le> 1023"
  shows "nonneg_within (2 ^ (k + 5)) (mean (replicate 5 x))"
proof -
  have z: "nonneg_within (2 ^ k) (Fin 0)" by (simp add: nonneg_within_def)
  have s1: "nonneg_within (2 ^ (k + 1)) (fadd (Fin 0) x)"
    using fadd_nonneg_within [OF z x] k by simp
  have s2: "nonneg_within (2 ^ (k + 1 + 1)) (fadd (fadd (Fin 0) x) x)"
    using fadd_nonneg_within' [OF s1 x] k by simp
  have s3: "nonneg_within (2 ^ (k + 1 + 1 + 1)) (fadd (fadd (fadd (Fin 0) x) x) x)"
    using fadd_nonneg_within' [OF s2 x] k by simp
  have s4: "nonneg_within (2 ^ (k + 1 + 1 + 1 + 1)) (fadd (fadd (fadd (fadd (Fin 0) x) x) x) x)"
    using fadd_nonneg_within' [OF s3 x] k by simp
  have s5: "nonneg_within (2 ^ (k + 1 + 1 + 1 + 1 + 1))
      (fadd (fadd (fadd (fadd (fadd (Fin 0) x) x) x) x) x)"
    using fadd_nonneg_within' [OF s4 x] k by simp
  have f: "foldl fadd (Fin 0) (replicate 5 x) = fadd (fadd (fadd (fadd (fadd (Fin 0) x) x) x) x) x"
    by (simp add: replicate_numeral)
  have "k + 1 + 1 + 1 + 1 + 1 = k + 5" by simp
  with s5 have "nonneg_within (2 ^ (k + 5)) (foldl fadd (Fin 0) (replicate 5 x))"
    by (simp only: f)
  then have "nonneg_within (2 ^ (k + 5)) (fdiv (foldl fadd (Fin 0) (replicate 5 x)) (Fin 5))"
    by (rule fdiv_nonneg_within) (use k in simp_all)
  then show ?thesis by (simp add: mean_def num_of_nat_def)
qed

lemma lof_constant_score_finite:
  assumes "\<bar>a - p\<bar> \<le> 2 ^ 500" "\<bar>b - v\<bar> \<le> 2 ^ 500"
  shows "nonneg_within (2 ^ 507) (lof_constant_score (Num (Fin a)) (Num (Fin b)) p v)"
proof -
  define X where "X = fdiv (fsub (Fin a) (Fin p)) (Fin 1)"
  define Y where "Y = fdiv (fsub (Fin b) (Fin v)) (Fin 1)"
  have X: "finite_within (2 ^ 500) X"
    unfolding X_def using assms(1) by (intro fdiv_one_within fsub_within) simp_all
  have Y: "finite_within (2 ^ 500) Y"
    unfolding Y_def using assms(2) by (intro fdiv_one_within fsub_within) simp_all
  have X2: "nonneg_within (2 ^ (2 * 500)) (Math_pow_2 X)"
    using X by (intro Math_pow_2_within) simp_all
  have Y2: "nonneg_within (2 ^ (2 * 500)) (Math_pow_2 Y)"
    using Y by (intro Math_pow_2_within) simp_all
  have S: "nonneg_within (2 ^ (2 * 500 + 1)) (fadd (Math_pow_2 X) (Math_pow_2 Y))"
    using X2 Y2 by (intro fadd_nonneg_within) simp_all
  have "(2::rat) ^ (2 * 500 + 1) \<le> 2 ^ 501 * 2 ^ 501" by simp
  with S have "nonneg_within (2 ^ 501 * 2 ^ 501) (fadd (Math_pow_2 X) (Math_pow_2 Y))"
    by (rule nonneg_within_mono)
  then have "nonneg_within (2 * 2 ^ 501) (Math_sqrt (fadd (Math_pow_2 X) (Math_pow_2 Y)))"
    by (intro Math_sqrt_nonneg_within) simp_all
  moreover have "(2::rat) * 2 ^ 501 = 2 ^ 502" by simp
  ultimately have D: "nonneg_within (2 ^ 502) (distance (X, Y) (Fin 0, Fin 0))"
    using X Y by (simp add: distance_def fsub_zero_right)
  have "nonneg_within (2 ^ (502 + 5)) (mean (replicate 5 (distance (X, Y) (Fin 0, Fin 0))))"
    using D by (intro mean_five_nonneg_within) simp_all
  then have "nonneg_within (2 ^ (502 + 5))
      (fdiv (mean (replicate 5 (distance (X, Y) (Fin 0, Fin 0)))) (Fin 1))"
    by (rule fdiv_nonneg_within) simp_all
  then show ?thesis by (simp add: lof_constant_score_def X_def Y_def)
qed
subsection \<open>Overflow\<close>

lemma round64_at_least:
  assumes q: "pow2 k \<le> q" and k: "- 1022 \<le> k"
  shows "at_least (pow2 k) (round64 q)"
proof -
  have pos: "0 < q" using q pow2_pos [of k] by simp
  define e where "e = max (ilog2 q) (- 1022) - 52"
  define m where "m = round_half_even (q / pow2 e)"
  have l: "k \<le> ilog2 q" using pos q by (rule ilog2_ge)
  then have e: "e = ilog2 q - 52" using k by (simp add: e_def)
  have "pow2 52 = pow2 (ilog2 q) / pow2 e" by (simp add: e pow2_diff [symmetric])
  also have "\<dots> \<le> q / pow2 e"
    using ilog2_lower [OF pos] pow2_pos [of e] by (simp add: divide_right_mono)
  finally have "of_int (2 ^ 52) \<le> q / pow2 e" by (simp add: pow2_def)
  then have m: "2 ^ 52 \<le> m" unfolding m_def by (rule round_half_even_ge)
  have "pow2 k \<le> pow2 (ilog2 q)" using l by (rule pow2_mono)
  also have "pow2 (ilog2 q) = pow2 52 * pow2 e" by (simp add: e pow2_add [symmetric])
  also have "\<dots> = of_int (2 ^ 52) * pow2 e" by (simp add: pow2_def)
  also have "\<dots> \<le> of_int m * pow2 e"
    using m pow2_pos [of e] by (intro mult_right_mono) simp_all
  finally have r: "pow2 k \<le> of_int m * pow2 e" .
  have "m \<noteq> 0" using m by auto
  then have "round64 q = (if 2 ^ 1024 \<le> of_int m * pow2 e then PosInf else Fin (of_int m * pow2 e))"
    using pos by (simp add: round64_def Let_def m_def e_def)
  then show ?thesis using r by (simp add: at_least_def)
qed

lemma fdiv_one_at_least:
  assumes "at_least (pow2 k) x" "- 1022 \<le> k"
  shows "at_least (pow2 k) (fdiv x (Fin 1))"
proof -
  from assms(1) consider "x = PosInf" | r where "x = Fin r" "pow2 k \<le> r"
    by (auto simp: at_least_def)
  then show ?thesis
  proof cases
    case 1
    then show ?thesis
      by (simp add: fdiv_def is_zero_def is_inf_def signed_inf_def at_least_def)
  next
    case 2
    then have "r \<noteq> 0" using pow2_pos [of k] by auto
    then show ?thesis using 2 round64_at_least [of k r] assms(2)
      by (simp add: fdiv_def is_zero_def is_inf_def)
  qed
qed

lemma Math_pow_2_overflow:
  assumes "at_least (pow2 512) x"
  shows "Math_pow_2 x = PosInf"
proof -
  have p: "pow2 512 = 2 ^ 512" by (simp add: pow2_def)
  from assms consider "x = PosInf" | r where "x = Fin r" "2 ^ 512 \<le> r"
    by (auto simp: at_least_def p)
  then show ?thesis
  proof cases
    case 1
    then show ?thesis
      by (simp add: Math_pow_2_def fmul_def is_zero_def is_inf_def signed_inf_def)
  next
    case 2
    have "(0::rat) < 2 ^ 512" by simp
    then have r0: "0 < r" using 2(2) by (rule less_le_trans)
    have "(2::rat) ^ 1024 = 2 ^ 512 * 2 ^ 512" by simp
    also have "\<dots> \<le> r * r" using 2(2) by (intro mult_mono) simp_all
    finally have "(2::rat) ^ 1024 \<le> \<bar>r * r\<bar>" by simp
    then have "round64 (r * r) = PosInf"
      using r0 by (simp only: round64_overflow) (simp add: not_less)
    then show ?thesis using 2 r0 by (simp add: Math_pow_2_def fmul_def is_zero_def is_inf_def)
  qed
qed

lemma at_least_fsub_zero: "at_least B x \<Longrightarrow> fsub x (Fin 0) = x"
  by (auto simp: at_least_def fsub_def)

lemma mean_five_PosInf: "mean (replicate 5 PosInf) = PosInf"
  by (simp add: mean_def replicate_numeral fdiv_def num_of_nat_def is_zero_def is_inf_def
      signed_inf_def)

lemma fdiv_PosInf_one: "fdiv PosInf (Fin 1) = PosInf"
  by (simp add: fdiv_def is_zero_def is_inf_def signed_inf_def)

lemma lof_constant_score_overflow:
  "lof_constant_score (Num (Fin (2 ^ 513))) (Num (Fin 1000)) 100 1000 = PosInf"
proof -
  define X where "X = fdiv (fsub (Fin (2 ^ 513)) (Fin 100)) (Fin 1)"
  have "pow2 512 \<le> 2 ^ 513 + - 100" by (simp add: pow2_def)
  then have "at_least (pow2 512) (round64 (2 ^ 513 + - 100))"
    by (rule round64_at_least) simp
  then have "at_least (pow2 512) (fsub (Fin (2 ^ 513)) (Fin 100))"
    by (simp add: fsub_def)
  then have X: "at_least (pow2 512) X"
    unfolding X_def by (rule fdiv_one_at_least) simp
  have Y: "fdiv (fsub (Fin 1000) (Fin 1000)) (Fin 1) = Fin 0"
    by (simp add: fsub_self fdiv_zero_one)
  have Z: "Math_pow_2 (Fin 0) = Fin 0"
    by (simp add: Math_pow_2_def fmul_def is_zero_def is_inf_def signed_zero_def)
  have D: "distance (X, Fin 0) (Fin 0, Fin 0) = PosInf"
    unfolding distance_def fst_conv snd_conv at_least_fsub_zero [OF X] Math_pow_2_overflow [OF X]
      fsub_self Z
    by simp
  show ?thesis
    unfolding lof_constant_score_def ToNumber.simps Y
    unfolding X_def [symmetric] D mean_five_PosInf fdiv_PosInf_one
    by (rule refl)
qed

lemma lof_constant_score_example:
  "lof_constant_score (Num (Fin 130)) (Num (Fin 1000)) 100 1000 = Fin 30"
proof -
  have X: "fdiv (fsub (Fin 130) (Fin 100)) (Fin 1) = Fin 30" by (simp add: number_eval)
  have Y: "fdiv (fsub (Fin 1000) (Fin 1000)) (Fin 1) = Fin 0"
    by (simp add: fsub_self fdiv_zero_one)
  have D: "distance (Fin 30, Fin 0) (Fin 0, Fin 0) = Fin 30"
    unfolding distance_def fst_conv snd_conv by (simp add: number_eval)
  have M: "mean (replicate 5 (Fin 30)) = Fin 30"
    by (simp add: replicate_numeral mean_def number_eval)
  show ?thesis
    unfolding lof_constant_score_def ToNumber.simps X Y D M by (simp add: number_eval)
qed

section \<open>Claims\<close>

text \<open>
  C1. For every evaluation that returns a result, the findings are sorted ascending by
  severity rank (critical 0, high 1, medium 2, low 3): for all \<open>i < j\<close> the rank of
  finding \<open>i\<close> is at most the rank of finding \<open>j\<close>; and findings of equal severity
  appear in detector-invocation order zscore, volume_spike, price_deviation, lof.
\<close>

theorem findings_sorted_by_severity:
  assumes "POST request clk = Json_ok r"
  shows "\<forall>i j. i < j \<and> j < length (anomalies r) \<longrightarrow>
           severity_rank (severity (anomalies r ! i)) \<le> severity_rank (severity (anomalies r ! j)) \<and>
           (severity (anomalies r ! i) = severity (anomalies r ! j) \<longrightarrow>
              detector_index (type (anomalies r ! i)) < detector_index (type (anomalies r ! j)))"
proof -
  from POST_ok [OF assms] obtain tk cur hist where
    a: "anomalies r = sort_key (\<lambda>a. severity_rank (severity a)) (fst (run_detectors tk cur hist clk))"
    by blast
  have "sorted_wrt (\<lambda>a b. severity_rank (severity a) < severity_rank (severity b) \<or>
          (severity_rank (severity a) = severity_rank (severity b) \<and>
           detector_index (type a) < detector_index (type b))) (anomalies r)"
    unfolding a by (rule sort_rank_order) (rule run_detectors_ordered)
  then have s: "severity_rank (severity (anomalies r ! i)) < severity_rank (severity (anomalies r ! j)) \<or>
          (severity_rank (severity (anomalies r ! i)) = severity_rank (severity (anomalies r ! j)) \<and>
           detector_index (type (anomalies r ! i)) < detector_index (type (anomalies r ! j)))"
    if "i < j" "j < length (anomalies r)" for i j
    using that by (simp add: sorted_wrt_iff_nth_less)
  show ?thesis
  proof (intro allI impI)
    fix i j
    assume "i < j \<and> j < length (anomalies r)"
    then show "severity_rank (severity (anomalies r ! i)) \<le> severity_rank (severity (anomalies r ! j)) \<and>
           (severity (anomalies r ! i) = severity (anomalies r ! j) \<longrightarrow>
              detector_index (type (anomalies r ! i)) < detector_index (type (anomalies r ! j)))"
      using s [of i j] by auto
  qed
qed

theorem findings_sorted_by_severity_witness:
  "POST (Some example_request) (\<lambda>n. int n) = Json_ok example_result \<and>
   (0::nat) < 1 \<and> 1 < length (anomalies example_result) \<and>
   severity_rank (severity (anomalies example_result ! 0))
     \<le> severity_rank (severity (anomalies example_result ! 1)) \<and>
   severity (anomalies example_result ! 0) = severity (anomalies example_result ! 1) \<and>
   detector_index (type (anomalies example_result ! 0))
     < detector_index (type (anomalies example_result ! 1))"
  using findings_sorted_by_severity [OF example_POST]
  by (simp add: example_POST example_result_def example_zscore_def example_volume_spike_def
      detector_index_def)

text \<open>
  C2. For every evaluation that returns a result, the summary satisfies: \<open>hasAnomalies\<close>
  is true exactly when the findings are not empty; \<open>highestSeverity\<close> is the severity of
  the first finding when there is one and the sentinel \<open>none\<close> otherwise; and \<open>types\<close> is
  the sequence of the kinds of the sorted findings with duplicates removed, in
  first-occurrence order.
\<close>

theorem summary_of_findings:
  assumes "POST request clk = Json_ok r"
  shows "hasAnomalies (summary r) = (anomalies r \<noteq> []) \<and>
         highestSeverity (summary r) =
           (if anomalies r = [] then None else Some (severity (anomalies r ! 0))) \<and>
         types (summary r) = first_occurrences (map type (anomalies r))"
  using POST_ok [OF assms]
  by (auto simp: typesList_of_first_occurrences split: list.splits)

theorem summary_of_findings_witness:
  "POST (Some example_request) (\<lambda>n. int n) = Json_ok example_result \<and>
   hasAnomalies (summary example_result) = (anomalies example_result \<noteq> []) \<and>
   highestSeverity (summary example_result) = Some Critical \<and>
   types (summary example_result) = [''zscore'', ''volume_spike'']"
  using summary_of_findings [OF example_POST]
  by (simp add: example_POST example_result_def)

text \<open>
  C4. Each detector abstains, returning no finding and raising nothing, when its history
  is shorter than its minimum length: fewer than 10 entries for the z-score and
  volume-spike detectors, fewer than 20 for the price-deviation detector (window 20) and
  the LOF detector. A request with an empty history is answered with a result that has
  no findings, not with an error.
\<close>

theorem detectors_abstain_on_short_history:
  "(length hp < 10 \<longrightarrow> detectZScoreAnomaly cp hp tk thr clk = (None, clk)) \<and>
   (length hv < 10 \<longrightarrow> detectVolumeSpikeAnomaly cv hv tk thr clk = (None, clk)) \<and>
   (length hp < 20 \<longrightarrow> detectPriceDeviation cp hp tk 20 thr clk = (None, clk)) \<and>
   (length hs < 20 \<longrightarrow> detectLOFAnomaly cp cv hs tk thr clk = (None, clk)) \<and>
   (req_ticker body = Some tk \<and> tk \<noteq> [] \<and> currentData body = Some cur \<and>
    historicalData body = Some [] \<longrightarrow>
      (\<exists>r. POST (Some body) clk = Json_ok r \<and> anomalies r = [] \<and> anomalyCount r = 0 \<and>
         hasAnomalies (summary r) = False \<and> highestSeverity (summary r) = None))"
  by (simp add: detectZScoreAnomaly_def detectVolumeSpikeAnomaly_def detectPriceDeviation_def
      detectLOFAnomaly_def POST_def run_detectors_def push_if_def Array_sort_def Date_now_def
      typesList_of_def)

theorem detectors_abstain_on_short_history_witness:
  "length (replicate 9 (Num (Fin 1))) < 10 \<and>
   detectZScoreAnomaly (Num (Fin 50)) (replicate 9 (Num (Fin 1))) ''BTC'' (Fin (5 / 2)) (\<lambda>n. int n)
     = (None, \<lambda>n. int n) \<and>
   detectVolumeSpikeAnomaly (Num (Fin 50)) (replicate 9 (Num (Fin 1))) ''BTC'' (Fin 3) (\<lambda>n. int n)
     = (None, \<lambda>n. int n) \<and>
   length (replicate 19 (Num (Fin 1))) < 20 \<and>
   detectPriceDeviation (Num (Fin 50)) (replicate 19 (Num (Fin 1))) ''BTC'' 20 (Fin 5) (\<lambda>n. int n)
     = (None, \<lambda>n. int n) \<and>
   length (replicate 19 \<lparr>price = Num (Fin 1), volume = Num (Fin 1)\<rparr>) < 20 \<and>
   detectLOFAnomaly (Num (Fin 50)) (Num (Fin 50))
       (replicate 19 \<lparr>price = Num (Fin 1), volume = Num (Fin 1)\<rparr>) ''BTC'' (Fin (3 / 2))
       (\<lambda>n. int n)
     = (None, \<lambda>n. int n) \<and>
   (\<exists>r. POST (Some (example_request\<lparr>historicalData := Some []\<rparr>)) (\<lambda>n. int n) = Json_ok r \<and>
      anomalies r = [] \<and> anomalyCount r = 0 \<and> hasAnomalies (summary r) = False \<and>
      highestSeverity (summary r) = None)"
proof -
  have h: "req_ticker (example_request\<lparr>historicalData := Some []\<rparr>) = Some ''BTC'' \<and>
      ''BTC'' \<noteq> [] \<and>
      currentData (example_request\<lparr>historicalData := Some []\<rparr>)
        = Some \<lparr>price = Num (Fin 20), volume = Num (Fin 11)\<rparr> \<and>
      historicalData (example_request\<lparr>historicalData := Some []\<rparr>) = Some []"
    by (simp add: example_request_def)
  show ?thesis
    using h detectors_abstain_on_short_history
      [where hp = "replicate 9 (Num (Fin 1))" and cp = "Num (Fin 50)" and tk = "''BTC''"
        and thr = "Fin (5 / 2)" and clk = "\<lambda>n. int n"]
      detectors_abstain_on_short_history
      [where hv = "replicate 9 (Num (Fin 1))" and cv = "Num (Fin 50)" and tk = "''BTC''"
        and thr = "Fin 3" and clk = "\<lambda>n. int n"]
      detectors_abstain_on_short_history
      [where hp = "replicate 19 (Num (Fin 1))" and cp = "Num (Fin 50)" and tk = "''BTC''"
        and thr = "Fin 5" and clk = "\<lambda>n. int n"]
      detectors_abstain_on_short_history
      [where hs = "replicate 19 \<lparr>price = Num (Fin 1), volume = Num (Fin 1)\<rparr>"
        and cp = "Num (Fin 50)" and cv = "Num (Fin 50)" and tk = "''BTC''"
        and thr = "Fin (3 / 2)" and clk = "\<lambda>n. int n"]
      detectors_abstain_on_short_history
      [where body = "example_request\<lparr>historicalData := Some []\<rparr>" and tk = "''BTC''"
        and cur = "\<lparr>price = Num (Fin 20), volume = Num (Fin 11)\<rparr>" and clk = "\<lambda>n. int n"]
    by simp
qed

text \<open>
  C10. Every finding emitted by one of the four detectors has a score strictly greater
  than the threshold recorded in it; every finding of an evaluation, which runs the
  detectors with the default thresholds, has in addition a strictly positive score.
\<close>

theorem findings_above_threshold:
  "(fst (detectZScoreAnomaly cp hp tk thr clk) = Some a \<longrightarrow> fgt (score a) (threshold a)) \<and>
   (fst (detectVolumeSpikeAnomaly cv hv tk thr clk) = Some a \<longrightarrow> fgt (score a) (threshold a)) \<and>
   (fst (detectPriceDeviation cp hp tk w thr clk) = Some a \<longrightarrow> fgt (score a) (threshold a)) \<and>
   (fst (detectLOFAnomaly cp cv hs tk thr clk) = Some a \<longrightarrow> fgt (score a) (threshold a)) \<and>
   (POST request clk = Json_ok r \<longrightarrow>
      (\<forall>f \<in> set (anomalies r). fgt (score f) (threshold f) \<and> fgt (score f) (Fin 0)))"
proof -
  have "POST request clk = Json_ok r \<Longrightarrow> f \<in> set (anomalies r) \<Longrightarrow>
        fgt (score f) (threshold f) \<and> fgt (score f) (Fin 0)" for f
    using run_detectors_scores by (auto dest!: POST_ok)
  then show ?thesis
    using detectZScoreAnomaly_shape [of cp hp tk thr clk a]
      detectVolumeSpikeAnomaly_shape [of cv hv tk thr clk a]
      detectPriceDeviation_shape [of cp hp tk w thr clk a]
      detectLOFAnomaly_shape [of cp cv hs tk thr clk a]
    by blast
qed

theorem findings_above_threshold_witness:
  "fst (detectZScoreAnomaly (Num (Fin 20)) (map price example_history) ''BTC'' (Fin (5 / 2))
          (\<lambda>n. int n)) = Some example_zscore \<and>
   fgt (score example_zscore) (threshold example_zscore) \<and>
   POST (Some example_request) (\<lambda>n. int n) = Json_ok example_result \<and>
   example_volume_spike \<in> set (anomalies example_result) \<and>
   fgt (score example_volume_spike) (threshold example_volume_spike) \<and>
   fgt (score example_volume_spike) (Fin 0)"
  using findings_above_threshold
    [where cp = "Num (Fin 20)" and hp = "map price example_history" and tk = "''BTC''"
      and thr = "Fin (5 / 2)" and clk = "\<lambda>n. int n" and a = example_zscore
      and request = "Some example_request" and r = example_result]
  by (simp add: example_POST example_detectZScoreAnomaly example_result_def example_zscore_def)

text \<open>
  C3. Evaluation is deterministic: for a fixed request, two evaluations return the same
  findings, with the same kinds, scores and severities (and thresholds, messages and
  details), and the same summary, whatever the clock returns. The only fields read from
  outside the request are the timestamps.
\<close>

theorem evaluate_deterministic:
  "erase_time (POST request c) = erase_time (POST request d)"
proof (cases request)
  case None
  then show ?thesis by (simp add: POST_def)
next
  case (Some body)
  show ?thesis
  proof (cases "req_ticker body = None \<or> req_ticker body = Some [] \<or> currentData body = None \<or>
    historicalData body = None")
    case True
    then show ?thesis by (simp add: Some POST_missing)
  next
    case False
    then obtain tk cur hist where p: "req_ticker body = Some tk" "tk \<noteq> []"
      "currentData body = Some cur" "historicalData body = Some hist"
      by auto
    let ?E = "timestamp_update (\<lambda>_. 0::int)"
    let ?f = "\<lambda>a. severity_rank (severity a)"
    let ?C = "fst (run_detectors tk cur hist c)"
    let ?D = "fst (run_detectors tk cur hist d)"
    have e: "map ?E ?C = map ?E ?D" by (rule run_detectors_erased)
    have s: "map ?E (sort_key ?f ?C) = map ?E (sort_key ?f ?D)"
      by (simp add: sort_key_map_commute e)
    have l: "length ?C = length ?D" using e by (metis length_map)
    show ?thesis
      unfolding Some POST_present [OF p]
      using s l erased_severity [OF s] erased_type [OF s]
      by simp
  qed
qed

theorem evaluate_deterministic_witness:
  "erase_time (POST (Some example_request) (\<lambda>n. int n)) =
   erase_time (POST (Some example_request) (\<lambda>n. 1000 + int n)) \<and>
   map (\<lambda>a. (type a, score a, severity a)) (findings (POST (Some example_request) (\<lambda>n. int n))) =
   [(''zscore'', Fin 6, Critical), (''volume_spike'', Fin 11, Critical)]"
  using evaluate_deterministic [of "Some example_request" "\<lambda>n. int n" "\<lambda>n. 1000 + int n"]
  by (simp add: example_POST example_result_def example_zscore_def example_volume_spike_def)

text \<open>
  C5 (as stated, refuted). \<open>mean\<close> has no error result: on the empty sequence it divides
  0 by 0 and returns \<open>NaN\<close>.
\<close>

theorem mean_empty_is_NaN: "mean [] = NaN"
  by (simp add: mean_def fdiv_def num_of_nat_def is_zero_def)

text \<open>
  C5 (amended). \<open>mean\<close> is the floating-point quotient of the left-to-right sum of the
  sequence by its length. On the empty sequence it returns \<open>NaN\<close> and raises nothing. On
  a non-empty sequence of finite numbers on which no rounding occurs (every partial sum
  and the quotient are representable) it is the exact arithmetic mean.
\<close>

theorem mean_exact_or_NaN:
  "mean [] = NaN \<and>
   (qs \<noteq> [] \<and> (\<forall>k \<le> length qs. round64 (sum_list (take k qs)) = Fin (sum_list (take k qs))) \<and>
    round64 (sum_list qs / of_nat (length qs)) = Fin (sum_list qs / of_nat (length qs))
    \<longrightarrow> mean (map Fin qs) = Fin (sum_list qs / of_nat (length qs)))"
proof (intro conjI impI)
  show "mean [] = NaN"
    by (simp add: mean_def fdiv_def num_of_nat_def is_zero_def)
next
  assume a: "qs \<noteq> [] \<and>
    (\<forall>k \<le> length qs. round64 (sum_list (take k qs)) = Fin (sum_list (take k qs))) \<and>
    round64 (sum_list qs / of_nat (length qs)) = Fin (sum_list qs / of_nat (length qs))"
  then have s: "foldl fadd (Fin 0) (map Fin qs) = Fin (sum_list qs)"
    by (simp add: foldl_fadd_exact)
  from a have n: "length qs \<noteq> 0" by simp
  show "mean (map Fin qs) = Fin (sum_list qs / of_nat (length qs))"
    using a n
    by (simp add: mean_def s fdiv_def num_of_nat_def is_zero_def is_inf_def signed_zero_def)
qed

theorem mean_exact_or_NaN_witness:
  "mean [] = NaN \<and> [1, 2, 3 :: rat] \<noteq> [] \<and>
   round64 (sum_list (take 0 [1, 2, 3])) = Fin 0 \<and>
   round64 (sum_list (take 1 [1, 2, 3])) = Fin 1 \<and>
   round64 (sum_list (take 2 [1, 2, 3])) = Fin 3 \<and>
   round64 (sum_list (take 3 [1, 2, 3])) = Fin 6 \<and>
   round64 (sum_list [1, 2, 3] / of_nat (length [1, 2, 3 :: rat])) = Fin 2 \<and>
   mean (map Fin [1, 2, 3]) = Fin 2"
proof -
  have p: "\<forall>k \<le> length [1, 2, 3 :: rat].
      round64 (sum_list (take k [1, 2, 3])) = Fin (sum_list (take k [1, 2, 3]))"
  proof (intro allI impI)
    fix k :: nat
    assume "k \<le> length [1, 2, 3 :: rat]"
    then have "k = 0 \<or> k = 1 \<or> k = 2 \<or> k = 3" by auto
    then show "round64 (sum_list (take k [1, 2, 3])) = Fin (sum_list (take k [1, 2, 3]))"
      by (elim disjE) (simp_all add: number_eval)
  qed
  have q: "round64 (sum_list [1, 2, 3] / of_nat (length [1, 2, 3 :: rat])) =
     Fin (sum_list [1, 2, 3] / of_nat (length [1, 2, 3 :: rat]))"
    by (simp add: number_eval)
  have r: "round64 (sum_list (take 0 [1, 2, 3])) = Fin 0 \<and>
   round64 (sum_list (take 1 [1, 2, 3])) = Fin 1 \<and>
   round64 (sum_list (take 2 [1, 2, 3])) = Fin 3 \<and>
   round64 (sum_list (take 3 [1, 2, 3])) = Fin 6"
    by (simp add: number_eval)
  show ?thesis
    using p q r mean_exact_or_NaN [of "[1, 2, 3]"] by simp
qed

text \<open>
  C6 (as stated, refuted). A request whose current observation has no price is not
  rejected: it is answered with status 200 and the finding of the volume-spike detector,
  the absent price being read as \<open>NaN\<close> by the other detectors. In an aggregate over the
  history an absent value is read as \<open>NaN\<close> and \<open>null\<close> as 0.
\<close>

theorem missing_price_not_rejected:
  "POST (Some request_without_price) (\<lambda>n. int n) = Json_ok result_without_price \<and>
   mean (map ToNumber [Undefined, Num (Fin 2)]) = NaN \<and>
   mean (map ToNumber [Null, Num (Fin 2)]) = Fin 1"
proof (intro conjI)
  show "POST (Some request_without_price) (\<lambda>n. int n) = Json_ok result_without_price"
    unfolding POST_def request_without_price_def run_detectors_def Let_def
    by (simp add: example_without_price_zscore example_detectVolumeSpikeAnomaly
      detectPriceDeviation_def detectLOFAnomaly_def
      example_length push_if_def Array_sort_def typesList_of_def Date_now_def
      result_without_price_def example_volume_spike_def)
  show "mean (map ToNumber [Undefined, Num (Fin 2)]) = NaN"
    by (simp add: mean_def fdiv_def)
  show "mean (map ToNumber [Null, Num (Fin 2)]) = Fin 1"
    by (simp add: mean_def number_eval)
qed

text \<open>
  C6 (amended). When the ticker is missing or empty, or the current observation or the
  history is missing from the body, the evaluation fails at once with status 400 and the
  error \<open>Missing required data\<close>, which is the same whichever field is missing.
\<close>

theorem missing_top_level_field_rejected:
  assumes "req_ticker body = None \<or> req_ticker body = Some [] \<or> currentData body = None \<or>
    historicalData body = None"
  shows "POST (Some body) clk = Json_error 400 ''Missing required data''"
  using assms by (rule POST_missing)

theorem missing_top_level_field_rejected_witness:
  "currentData (example_request\<lparr>currentData := None\<rparr>) = None \<and>
   POST (Some (example_request\<lparr>currentData := None\<rparr>)) (\<lambda>n. int n) =
     Json_error 400 ''Missing required data''"
  using missing_top_level_field_rejected [of "example_request\<lparr>currentData := None\<rparr>" "\<lambda>n. int n"]
  by simp

text \<open>
  C7 (the code does not do this). With ten historical volumes of 0 the mean is 0 and the
  volume-spike detector divides by it: for the current volume 5 the ratio is \<open>+Infinity\<close>
  and a critical finding with that score is emitted; for the current volume 0 the ratio
  is \<open>NaN\<close> and nothing is emitted.
\<close>

theorem volume_spike_zero_mean_unguarded:
  "map_option (\<lambda>f. (severity f, score f))
     (fst (detectVolumeSpikeAnomaly (Num (Fin 5)) (replicate 10 (Num (Fin 0))) ''BTC'' (Fin 3)
        (\<lambda>n. int n))) = Some (Critical, PosInf) \<and>
   fst (detectVolumeSpikeAnomaly (Num (Fin 0)) (replicate 10 (Num (Fin 0))) ''BTC'' (Fin 3)
        (\<lambda>n. int n)) = None"
  unfolding detectVolumeSpikeAnomaly_def zero_volumes Let_def
  by (simp add: Date_now_def number_eval)

text \<open>
  C8 (the code does not do this). For the constant series of ten prices 0.1 the computed
  mean is 0.09999999999999999, the computed standard deviation is \<open>2^-56\<close> and not 0, so
  the guard \<open>std === 0\<close> does not fire, and for the current price 0.2 the z-score detector
  emits a critical finding.
\<close>

theorem zscore_constant_series_finding:
  "map_option (\<lambda>f. (severity f, score f))
     (fst (detectZScoreAnomaly (Num (round64 (1 / 5))) (replicate 10 (Num (round64 (1 / 10))))
        ''BTC'' (Fin (5 / 2)) (\<lambda>n. int n))) = Some (Critical, Fin 7205759403792795)"
  unfolding detectZScoreAnomaly_def tenth fifth map_replicate ToNumber.simps tenth_mean tenth_std
    Let_def
  by (simp add: Date_now_def number_eval)

text \<open>
  C9 (as stated, refuted). With twenty historical points of price 100 and volume 1000
  and the current price \<open>2^513\<close> (about 2.7e154, a finite double), the square of the
  normalised price difference overflows and the LOF detector emits a critical finding
  whose score is \<open>+Infinity\<close>.
\<close>

theorem lof_overflow_on_constant_history:
  "map_option (\<lambda>f. (severity f, score f))
     (fst (detectLOFAnomaly (Num (Fin (2 ^ 513))) (Num (Fin 1000))
        (replicate 20 \<lparr>price = Num (Fin 100), volume = Num (Fin 1000)\<rparr>) ''BTC'' (Fin (3 / 2))
        (\<lambda>n. int n))) = Some (Critical, PosInf)"
proof -
  have n: "(20::nat) \<le> 20" by simp
  show ?thesis
    unfolding detectLOFAnomaly_constant [OF n] lof_constant_score_overflow
    by (simp add: fgt_def)
qed

text \<open>
  C9 (amended). For every history of at least 20 pairs with one constant finite price
  and one constant finite volume, and any current price and volume, the LOF detector
  substitutes 1 for the zero price range, the zero volume range and the zero average
  historical k-distance, and returns either no finding or a finding whose score is the
  mean of five copies of the distance of the current point from the constant, which is
  not \<open>NaN\<close> and is greater than the threshold. When the current price and volume are
  finite and differ from the constants by at most \<open>2^500\<close>, that score is a finite
  number; beyond that the squares may overflow and the score be \<open>+Infinity\<close>.
\<close>

theorem lof_constant_history:
  assumes "20 \<le> n"
  shows "(fst (detectLOFAnomaly cp cv (replicate n \<lparr>price = Num (Fin p), volume = Num (Fin v)\<rparr>)
              tk thr clk) = None \<or>
          (\<exists>f. fst (detectLOFAnomaly cp cv
                     (replicate n \<lparr>price = Num (Fin p), volume = Num (Fin v)\<rparr>) tk thr clk) = Some f \<and>
               score f = lof_constant_score cp cv p v \<and> score f \<noteq> NaN \<and> fgt (score f) thr)) \<and>
         (cp = Num (Fin a) \<and> cv = Num (Fin b) \<and> \<bar>a - p\<bar> \<le> 2 ^ 500 \<and> \<bar>b - v\<bar> \<le> 2 ^ 500 \<longrightarrow>
            (\<exists>l. lof_constant_score cp cv p v = Fin l \<and> 0 \<le> l))"
proof (intro conjI impI)
  have "lof_constant_score cp cv p v \<noteq> NaN" if "fgt (lof_constant_score cp cv p v) thr"
    using that by (auto simp: fgt_def fless_NaN_right)
  then show "fst (detectLOFAnomaly cp cv (replicate n \<lparr>price = Num (Fin p), volume = Num (Fin v)\<rparr>)
              tk thr clk) = None \<or>
          (\<exists>f. fst (detectLOFAnomaly cp cv
                     (replicate n \<lparr>price = Num (Fin p), volume = Num (Fin v)\<rparr>) tk thr clk) = Some f \<and>
               score f = lof_constant_score cp cv p v \<and> score f \<noteq> NaN \<and> fgt (score f) thr)"
    by (simp add: detectLOFAnomaly_constant [OF assms])
next
  assume "cp = Num (Fin a) \<and> cv = Num (Fin b) \<and> \<bar>a - p\<bar> \<le> 2 ^ 500 \<and> \<bar>b - v\<bar> \<le> 2 ^ 500"
  then show "\<exists>l. lof_constant_score cp cv p v = Fin l \<and> 0 \<le> l"
    using lof_constant_score_finite [of a p b v] by (auto simp: nonneg_within_def)
qed

theorem lof_constant_history_witness:
  "(20::nat) \<le> 20 \<and>
   map_option score (fst (detectLOFAnomaly (Num (Fin 130)) (Num (Fin 1000))
        (replicate 20 \<lparr>price = Num (Fin 100), volume = Num (Fin 1000)\<rparr>) ''BTC'' (Fin (3 / 2))
        (\<lambda>n. int n))) = Some (lof_constant_score (Num (Fin 130)) (Num (Fin 1000)) 100 1000) \<and>
   \<bar>130 - 100 :: rat\<bar> \<le> 2 ^ 500 \<and> \<bar>1000 - 1000 :: rat\<bar> \<le> 2 ^ 500 \<and>
   lof_constant_score (Num (Fin 130)) (Num (Fin 1000)) 100 1000 = Fin 30 \<and> (0::rat) \<le> 30"
proof -
  have n: "(20::nat) \<le> 20" by simp
  show ?thesis
    using lof_constant_history [OF n, where cp = "Num (Fin 130)" and cv = "Num (Fin 1000)"
        and p = 100 and v = 1000 and a = 130 and b = 1000 and tk = "''BTC''"
        and thr = "Fin (3 / 2)" and clk = "\<lambda>n. int n"]
    unfolding detectLOFAnomaly_constant [OF n] lof_constant_score_example
    by (simp add: fgt_def)
qed

end
